theory Spec2Isabelle
  imports Main
begin

unbundle bit_operations_syntax

section \<open>The Deutsch-Josza notebook\<close>

text \<open>
  The program is the notebook \<^verbatim>\<open>reference/algorithms/deutsch_josza.ipynb\<close>: code cells
  5, 7, 9, 11 and 13. Everything the notebook does is a call into a library (numpy's
  random generator, the quantum SDK, the plotting helper), so a run is modelled by the
  sequence of calls it makes, in order, together with its outcome: the value it ends
  with, or the error that stopped it. The circuit object belongs to the SDK; the
  circuit of a run is the sequence of gate calls the notebook made on it.

  The cells are written first with two library calls that can raise:
  \<^verbatim>\<open>np.random.randint\<close>, on an interval it refuses, and
  \<^verbatim>\<open>results.get_counts\<close>, on a job that failed (the error the notebook records in
  cell 13). Every other call returns there. The errors of the other calls, whatever
  they are, are added to a run by \<open>with_library\<close> below. The imports are taken to
  succeed.

  Cell 14 runs another notebook (\<^verbatim>\<open>../version.ipynb\<close>), which is not part of this
  source file; it is left out.
\<close>

subsection \<open>Errors\<close>

datatype error =
    Exception string  \<comment> \<open>the notebook's own \<^verbatim>\<open>raise Exception(...)\<close> of cell 5\<close>
  | NameError         \<comment> \<open>the interpreter's, on reading a variable that is not bound\<close>
  | ValueError        \<comment> \<open>raised inside a library, as \<^verbatim>\<open>np.random.randint\<close> does\<close>
  | QISKitError string  \<comment> \<open>raised inside the SDK, as \<^verbatim>\<open>results.get_counts\<close> does\<close>

subsection \<open>Gates and library calls\<close>

text \<open>
  A qubit \<^verbatim>\<open>qr[i]\<close> and a classical bit \<^verbatim>\<open>cr[i]\<close> are named by their index in the
  one quantum and the one classical register of the circuit.
\<close>

datatype gate =
    Gate_h nat            \<comment> \<open>\<^verbatim>\<open>djCircuit.h(qr[i])\<close>\<close>
  | Gate_x nat            \<comment> \<open>\<^verbatim>\<open>djCircuit.x(qr[i])\<close>\<close>
  | Gate_iden nat         \<comment> \<open>\<^verbatim>\<open>djCircuit.iden(qr[i])\<close>\<close>
  | Gate_cx nat nat       \<comment> \<open>\<^verbatim>\<open>djCircuit.cx(qr[i], qr[j])\<close>: control, target\<close>
  | Gate_barrier          \<comment> \<open>\<^verbatim>\<open>djCircuit.barrier()\<close>\<close>
  | Gate_measure nat nat  \<comment> \<open>\<^verbatim>\<open>djCircuit.measure(qr[i], cr[j])\<close>\<close>

text \<open>A counts dictionary: the items in insertion order, the keys distinct.\<close>

type_synonym counts = "(string \<times> int) list"

datatype printed =
    Print_constant int   \<comment> \<open>\<^verbatim>\<open>print("The oracle returns a constant value ", oracleValue)\<close>\<close>
  | Print_balanced       \<comment> \<open>\<^verbatim>\<open>print("The oracle returns a balanced function")\<close>\<close>
  | Print_counts counts  \<comment> \<open>\<^verbatim>\<open>print(filteredAnswer)\<close>\<close>

datatype call =
    Call_QuantumProgram
  | Call_set_api
  | Call_randint int int   \<comment> \<open>\<^verbatim>\<open>np.random.randint(low, high)\<close>; \<^verbatim>\<open>randint(2)\<close> is low 0, high 2\<close>
  | Call_print printed
  | Call_create_quantum_register string nat
  | Call_create_classical_register string nat
  | Call_create_circuit string
  | Call_gate gate
  | Call_execute string nat "nat option"  \<comment> \<open>backend, shots, timeout\<close>
  | Call_get_counts string "counts option"
      \<comment> \<open>the circuit's name, and the dictionary returned (\<open>None\<close> when the call raised)\<close>
  | Call_plot_histogram counts

fun is_randint :: "call \<Rightarrow> bool" where
  "is_randint (Call_randint low high) = True"
| "is_randint c = False"

fun is_gate :: "call \<Rightarrow> bool" where
  "is_gate (Call_gate g) = True"
| "is_gate c = False"

fun is_execute :: "call \<Rightarrow> bool" where
  "is_execute (Call_execute backend sh timeout) = True"
| "is_execute c = False"

fun is_counts_returned :: "call \<Rightarrow> bool" where
  "is_counts_returned (Call_get_counts nm (Some d)) = True"
| "is_counts_returned c = False"

fun is_plot :: "call \<Rightarrow> bool" where
  "is_plot (Call_plot_histogram d) = True"
| "is_plot c = False"

text \<open>The gate calls of a run, in order: the circuit the SDK has been given.\<close>

fun gates_of :: "call list \<Rightarrow> gate list" where
  "gates_of [] = []"
| "gates_of (Call_gate g # cs) = g # gates_of cs"
| "gates_of (c # cs) = gates_of cs"

subsection \<open>Runs: the calls made, and the outcome\<close>

type_synonym 'a run = "call list \<times> (error + 'a)"

definition ret :: "'a \<Rightarrow> 'a run" where
  "ret v = ([], Inr v)"

definition raise :: "error \<Rightarrow> 'a run" where
  "raise e = ([], Inl e)"

definition call :: "call \<Rightarrow> unit run" where
  "call c = ([c], Inr ())"

text \<open>
  Sequencing: the second statement runs only when the first returned; an error ends the
  run with the calls made so far (the notebook has no \<^verbatim>\<open>try\<close>).
\<close>

definition run_bind :: "'a run \<Rightarrow> ('a \<Rightarrow> 'b run) \<Rightarrow> 'b run" where
  "run_bind m f =
     (case snd m of
        Inl e \<Rightarrow> (fst m, Inl e)
      | Inr v \<Rightarrow> (fst m @ fst (f v), snd (f v)))"

definition run_then :: "unit run \<Rightarrow> 'b run \<Rightarrow> 'b run" where
  "run_then m k = run_bind m (\<lambda>u. k)"

text \<open>\<^verbatim>\<open>for i in range(n): body\<close>\<close>

primrec for_each :: "nat list \<Rightarrow> (nat \<Rightarrow> unit run) \<Rightarrow> unit run" where
  "for_each [] body = ret ()"
| "for_each (i # is) body = run_then (body i) (for_each is body)"

definition for_range :: "nat \<Rightarrow> (nat \<Rightarrow> unit run) \<Rightarrow> unit run" where
  "for_range n body = for_each [0..<n] body"

subsection \<open>What a run takes from outside\<close>

text \<open>
  The interpreter's version, the randomness behind the three \<^verbatim>\<open>randint\<close> calls, and
  what the two backend jobs come back with: the counts dictionary, or the message of the
  error that \<^verbatim>\<open>get_counts\<close> raises (as the recorded run of cell 13 does with
  \<^verbatim>\<open>'QISkit Time Out'\<close>).

  \<^verbatim>\<open>sys.version_info\<close> is compared with the pair \<^verbatim>\<open>(3,5)\<close>; Python compares tuples
  lexicographically, and a tuple that extends \<^verbatim>\<open>(3,5)\<close> is not below it, so only major
  and minor matter.
\<close>

record env =
  version_info :: "nat \<times> nat"
  rnd_oracleType :: nat
  rnd_oracleValue :: nat
  rnd_a :: nat
  job_simulator :: "string + counts"
  job_device :: "string + counts"

definition version_lt :: "nat \<times> nat \<Rightarrow> nat \<times> nat \<Rightarrow> bool" where
  "version_lt v w = (fst v < fst w \<or> (fst v = fst w \<and> snd v < snd w))"

text \<open>
  \<^verbatim>\<open>np.random.randint(low, high)\<close> is numpy's: an integer of the half-open interval
  from low to high, with the default 64-bit integer type; a ValueError when high is
  beyond that type or the interval is empty. The value drawn is modelled by reducing
  the run's randomness into the interval, so that every value of the interval can be
  drawn and no other.
\<close>

definition randint :: "int \<Rightarrow> int \<Rightarrow> nat \<Rightarrow> int run" where
  "randint low high r =
     ([Call_randint low high],
      if 2 ^ 63 < high then Inl ValueError
      else if high \<le> low then Inl ValueError
      else Inr (low + int r mod (high - low)))"

subsection \<open>Cell 5: the version check\<close>

definition cell5 :: "env \<Rightarrow> unit run" where
  "cell5 e =
     (if version_lt (version_info e) (3, 5)
      then raise (Exception ''Please use Python version 3.5 or greater.'')
      else ret ())"

subsection \<open>Cell 7\<close>

text \<open>\<^verbatim>\<open>n = 15\<close>. The cells below take \<open>n\<close> as a parameter.\<close>

definition n_cell7 :: nat where
  "n_cell7 = 15"

subsection \<open>Cell 9: the oracle's parameters and the circuit\<close>

text \<open>
  \<^verbatim>\<open>a\<close> is bound only in the balanced branch; it is \<open>None\<close> while unbound.
\<close>

definition select_parameters :: "nat \<Rightarrow> env \<Rightarrow> (int \<times> int \<times> int option) run" where
  "select_parameters n e =
     run_bind (randint 0 2 (rnd_oracleType e)) (\<lambda>oracleType.
     run_bind (randint 0 2 (rnd_oracleValue e)) (\<lambda>oracleValue.
     if oracleType = 0
     then run_then (call (Call_print (Print_constant oracleValue)))
            (ret (oracleType, oracleValue, None))
     else run_then (call (Call_print Print_balanced))
            (run_bind (randint 1 (2 ^ n) (rnd_a e)) (\<lambda>a.
             ret (oracleType, oracleValue, Some a)))))"

text \<open>
  The oracle, between the two barriers. \<^verbatim>\<open>if (a & (1 << i))\<close> is taken when the
  integer is not zero.
\<close>

definition oracle_section :: "nat \<Rightarrow> int \<Rightarrow> int \<Rightarrow> int option \<Rightarrow> unit run" where
  "oracle_section n oracleType oracleValue a =
     (if oracleType = 0
      then (if oracleValue = 1 then call (Call_gate (Gate_x n))
            else call (Call_gate (Gate_iden n)))
      else for_range n (\<lambda>i.
             case a of
               None \<Rightarrow> raise NameError
             | Some av \<Rightarrow>
                 if av AND push_bit i 1 \<noteq> 0 then call (Call_gate (Gate_cx i n))
                 else ret ()))"

definition construct_circuit :: "nat \<Rightarrow> int \<Rightarrow> int \<Rightarrow> int option \<Rightarrow> unit run" where
  "construct_circuit n oracleType oracleValue a =
     run_then (call (Call_create_quantum_register ''qr'' (n + 1)))
    (run_then (call (Call_create_classical_register ''cr'' n))
    (run_then (call (Call_create_circuit ''DeutschJosza''))
    (run_then (for_range n (\<lambda>i. call (Call_gate (Gate_h i))))
    (run_then (call (Call_gate (Gate_x n)))
    (run_then (call (Call_gate (Gate_h n)))
    (run_then (call (Call_gate Gate_barrier))
    (run_then (oracle_section n oracleType oracleValue a)
    (run_then (call (Call_gate Gate_barrier))
    (run_then (for_range n (\<lambda>i. call (Call_gate (Gate_h i))))
    (for_range n (\<lambda>i. call (Call_gate (Gate_measure i i)))))))))))))"

definition cell9 :: "nat \<Rightarrow> env \<Rightarrow> unit run" where
  "cell9 n e =
     run_then (call Call_QuantumProgram)
    (run_then (call Call_set_api)
    (run_bind (select_parameters n e) (\<lambda>(oracleType, oracleValue, a).
     construct_circuit n oracleType oracleValue a)))"

subsection \<open>Cells 11 and 13: the backends and the histograms\<close>

definition shots :: nat where
  "shots = 1000"

text \<open>
  \<^verbatim>\<open>results.get_counts(circuitName)\<close>: the dictionary of the job, or the SDK's
  QISKitError with the job's message.
\<close>

definition get_counts :: "string \<Rightarrow> string + counts \<Rightarrow> counts run" where
  "get_counts nm job =
     (case job of
        Inl msg \<Rightarrow> ([Call_get_counts nm None], Inl (QISKitError msg))
      | Inr d \<Rightarrow> ([Call_get_counts nm (Some d)], Inr d))"

definition cell11 :: "env \<Rightarrow> unit run" where
  "cell11 e =
     run_then (call (Call_execute ''ibmqx_hpc_qasm_simulator'' shots None))
    (run_bind (get_counts ''DeutschJosza'' (job_simulator e)) (\<lambda>answer.
     call (Call_plot_histogram answer)))"

text \<open>
  \<^verbatim>\<open>threshold = int(0.03 * shots)\<close>. The literal \<^verbatim>\<open>0.03\<close> is the double
  \<open>1080863910568919 / 2 ^ 55\<close>; \<^verbatim>\<open>shots\<close> converts to a double exactly; the product is
  the exact product rounded to 53 significant bits, ties to even; \<^verbatim>\<open>int\<close> drops the
  fraction.
\<close>

fun bitlen :: "nat \<Rightarrow> nat" where
  "bitlen m = (if m = 0 then 0 else Suc (bitlen (m div 2)))"

definition round53 :: "nat \<Rightarrow> nat" where
  "round53 m =
     (if bitlen m \<le> 53 then m
      else let s = bitlen m - 53; q = m div 2 ^ s; r = m mod 2 ^ s
           in (if 2 ^ (s - 1) < r \<or> (r = 2 ^ (s - 1) \<and> odd q) then q + 1 else q) * 2 ^ s)"

definition threshold :: int where
  "threshold = int (round53 (1080863910568919 * shots) div 2 ^ 55)"

text \<open>
  \<^verbatim>\<open>d[k] = v\<close> on a dictionary: the value of an existing key is replaced in place, a
  new key is added at the end.
\<close>

primrec dict_setitem :: "string \<Rightarrow> int \<Rightarrow> counts \<Rightarrow> counts" where
  "dict_setitem k v [] = [(k, v)]"
| "dict_setitem k v (p # ps) =
     (if fst p = k then (k, v) # ps else p # dict_setitem k v ps)"

text \<open>
  \<^verbatim>\<open>np.sum\<close> of a list of counts: numpy turns the list into an array of 64-bit
  signed integers (the counts fit in 64 bits) and adds them with wrap-around, so the
  result is the sum modulo \<open>2 ^ 64\<close>, read as a signed 64-bit integer. (Of no counts
  at all it is the float \<^verbatim>\<open>0.0\<close>, which is the number 0 here.)
\<close>

definition wrap_int64 :: "int \<Rightarrow> int" where
  "wrap_int64 x = (x + 2 ^ 63) mod 2 ^ 64 - 2 ^ 63"

definition np_sum :: "int list \<Rightarrow> int" where
  "np_sum vs = wrap_int64 (sum_list vs)"

text \<open>The filtering of cell 13, for a threshold \<open>t\<close>.\<close>

definition removedCounts :: "int \<Rightarrow> counts \<Rightarrow> int" where
  "removedCounts t answer = np_sum (map snd (filter (\<lambda>(k, v). v < t) answer))"

definition filteredAnswer :: "int \<Rightarrow> counts \<Rightarrow> counts" where
  "filteredAnswer t answer =
     dict_setitem ''other_bitstring'' (removedCounts t answer)
       (filter (\<lambda>(k, v). t \<le> v) answer)"

definition cell13 :: "env \<Rightarrow> unit run" where
  "cell13 e =
     run_then (call (Call_execute ''ibmqx5'' shots (Some 480)))
    (run_bind (get_counts ''DeutschJosza'' (job_device e)) (\<lambda>answer.
     run_then (call (Call_plot_histogram (filteredAnswer threshold answer)))
              (call (Call_print (Print_counts (filteredAnswer threshold answer))))))"

subsection \<open>The notebook, top to bottom\<close>

text \<open>
  The cells run in the order of the notebook, cell 9 with the \<open>n\<close> that cell 7 has set;
  a cell that raises ends the run.
\<close>

definition notebook :: "nat \<Rightarrow> env \<Rightarrow> unit run" where
  "notebook n e =
     run_then (cell5 e) (run_then (cell9 n e) (run_then (cell11 e) (cell13 e)))"

subsection \<open>The libraries\<close>

text \<open>
  What a library call does is outside the notebook, and any of them may raise:
  \<^verbatim>\<open>plot_histogram\<close> on an empty dictionary, \<^verbatim>\<open>create_classical_register\<close> for a
  register of size 0, \<^verbatim>\<open>set_api\<close> and \<^verbatim>\<open>execute\<close> without a connection. A library
  is described by the error, if any, that it raises at a call, given the calls made
  before it. The notebook has no \<^verbatim>\<open>try\<close> statement, and the calls it makes up to
  some call do not depend on what later calls do; so with a library the run is the run
  of the cells up to the first call at which the library raises, and it ends there with
  that error.
\<close>

type_synonym library = "call list \<Rightarrow> call \<Rightarrow> error option"

fun library_cut :: "library \<Rightarrow> call list \<Rightarrow> call list \<Rightarrow> error + unit \<Rightarrow> unit run" where
  "library_cut lib made [] outcome = (made, outcome)"
| "library_cut lib made (c # cs) outcome =
     (case lib made c of
        Some err \<Rightarrow> (made @ [c], Inl err)
      | None \<Rightarrow> library_cut lib (made @ [c]) cs outcome)"

definition with_library :: "library \<Rightarrow> unit run \<Rightarrow> unit run" where
  "with_library lib r = library_cut lib [] (fst r) (snd r)"

definition run_notebook :: "library \<Rightarrow> nat \<Rightarrow> env \<Rightarrow> unit run" where
  "run_notebook lib n e = with_library lib (notebook n e)"

text \<open>
  Two libraries: one whose calls all return, and one whose \<^verbatim>\<open>plot_histogram\<close>
  raises a ValueError on the empty dictionary.
\<close>

definition library_returns :: library where
  "library_returns made c = None"


subsection \<open>The gates of the oracle on computational basis states\<close>

text \<open>
  The oracle is made of X, identity and CNOT gates, which permute the computational
  basis: X flips its qubit, the identity leaves it, CNOT adds the control to the target
  modulo 2. The other gates are not part of an oracle. A basis state is the list of the
  qubits' values, \<^verbatim>\<open>qr[0]\<close> first.
\<close>

fun apply_gate :: "gate \<Rightarrow> bool list \<Rightarrow> bool list option" where
  "apply_gate (Gate_x q) s = (if q < length s then Some (s[q := \<not> s ! q]) else None)"
| "apply_gate (Gate_iden q) s = (if q < length s then Some s else None)"
| "apply_gate (Gate_cx c t) s =
     (if c < length s \<and> t < length s \<and> c \<noteq> t then Some (s[t := (s ! t \<noteq> s ! c)])
      else None)"
| "apply_gate g s = None"

fun apply_gates :: "gate list \<Rightarrow> bool list \<Rightarrow> bool list option" where
  "apply_gates [] s = Some s"
| "apply_gates (g # gs) s =
     (case apply_gate g s of None \<Rightarrow> None | Some s' \<Rightarrow> apply_gates gs s')"

text \<open>
  The query register holds the \<open>n\<close> bits of \<open>x\<close> (\<^verbatim>\<open>qr[i]\<close> is bit \<open>i\<close>), the answer
  qubit \<^verbatim>\<open>qr[n]\<close> holds \<open>y\<close>.
\<close>

definition basis :: "nat \<Rightarrow> int \<Rightarrow> bool \<Rightarrow> bool list" where
  "basis n x y = map (bit x) [0..<n] @ [y]"

text \<open>
  The boolean function of an oracle: the answer qubit after the oracle's gates, on the
  query \<open>x\<close> with the answer qubit at 0.
\<close>

definition oracle_f :: "nat \<Rightarrow> gate list \<Rightarrow> int \<Rightarrow> int option" where
  "oracle_f n gs x =
     (case apply_gates gs (basis n x False) of
        None \<Rightarrow> None
      | Some s \<Rightarrow> Some (if s ! n then 1 else 0))"

text \<open>The parity of the low \<open>n\<close> bits of an integer: 1 when an odd number are set.\<close>

definition parity :: "nat \<Rightarrow> int \<Rightarrow> int" where
  "parity n k = (if odd (length (filter (bit k) [0..<n])) then 1 else 0)"

text \<open>Which gates measure, and which calls create a classical register.\<close>

fun is_measure :: "gate \<Rightarrow> bool" where
  "is_measure (Gate_measure q c) = True"
| "is_measure g = False"

fun is_create_classical_register :: "call \<Rightarrow> bool" where
  "is_create_classical_register (Call_create_classical_register nm sz) = True"
| "is_create_classical_register c = False"


subsection \<open>Counts dictionaries\<close>



definition counts_in_range :: "counts \<Rightarrow> bool" where
  "counts_in_range answer =
     (list_all (\<lambda>(k, v). 0 \<le> v) answer \<and> sum_list (map snd answer) < 2 ^ 63)"

subsection \<open>Example runs\<close>

text \<open>
  The run the notebook records (Python 3.6, a constant oracle of value 0, the device
  job timed out), a run that draws a balanced oracle with \<open>a = 21845\<close>, a run on
  Python 3.4, and a run whose simulator job comes back with no counts.
\<close>

definition example_constant :: env where
  "example_constant =
     \<lparr>version_info = (3, 6), rnd_oracleType = 0, rnd_oracleValue = 0, rnd_a = 0,
      job_simulator = Inr [(''000000000000000'', 1000)],
      job_device = Inl ''QISkit Time Out''\<rparr>"

definition example_balanced :: env where
  "example_balanced =
     \<lparr>version_info = (3, 6), rnd_oracleType = 1, rnd_oracleValue = 1, rnd_a = 21844,
      job_simulator = Inr [(''101010101010101'', 1000)],
      job_device = Inr [(''101010101010101'', 900), (''101010101010100'', 80),
                        (''000000000000000'', 20)]\<rparr>"



section \<open>Runs and loops\<close>

lemma fst_ret: "fst (ret v) = []" and snd_ret: "snd (ret v) = Inr v"
  by (simp_all add: ret_def)

lemma fst_raise: "fst (raise e) = []" and snd_raise: "snd (raise e) = Inl e"
  by (simp_all add: raise_def)

lemma fst_call: "fst (call c) = [c]" and snd_call: "snd (call c) = Inr ()"
  by (simp_all add: call_def)

lemma run_bind_Inr: "snd m = Inr v \<Longrightarrow> run_bind m f = (fst m @ fst (f v), snd (f v))"
  by (simp add: run_bind_def)

lemma run_bind_Inl: "snd m = Inl e \<Longrightarrow> run_bind m f = (fst m, Inl e)"
  by (simp add: run_bind_def)

lemma run_then_Inr: "snd m = Inr u \<Longrightarrow> run_then m k = (fst m @ fst k, snd k)"
  by (simp add: run_then_def run_bind_def)

lemma run_then_Inl: "snd m = Inl e \<Longrightarrow> run_then m k = (fst m, Inl e)"
  by (simp add: run_then_def run_bind_def)

lemma run_then_call: "run_then (call c) k = (c # fst k, snd k)"
  by (simp add: run_then_def run_bind_def call_def)

lemma for_each_calls: "for_each is (\<lambda>i. call (c i)) = (map c is, Inr ())"
  by (induction "is") (simp_all add: ret_def run_then_call)

lemma for_each_filter_calls:
  "for_each is (\<lambda>i. if P i then call (c i) else ret ()) = (map c (filter P is), Inr ())"
  by (induction "is") (simp_all add: ret_def run_then_call run_then_def run_bind_def call_def)

lemma gates_of_append: "gates_of (xs @ ys) = gates_of xs @ gates_of ys"
  by (induction xs rule: gates_of.induct) simp_all

lemma gates_of_map_gate: "gates_of (map (\<lambda>i. Call_gate (g i)) is) = map g is"
  by (induction "is") simp_all

lemma gates_of_map_Call_gate: "gates_of (map Call_gate gs) = gs"
  by (induction gs) simp_all

lemma gates_of_none: "\<forall>c\<in>set cs. \<not> is_gate c \<Longrightarrow> gates_of cs = []"
  by (induction cs rule: gates_of.induct) simp_all

lemma split_in_second:
  assumes "\<forall>c\<in>set xs. \<not> Q c" and "xs @ ys = pre @ c # post" and "Q c"
  shows "\<exists>us. pre = xs @ us \<and> ys = us @ c # post"
  using assms
proof (induction xs arbitrary: pre)
  case Nil
  then show ?case by simp
next
  case (Cons x xs)
  then show ?case by (cases pre) auto
qed

lemma none_later:
  assumes "\<forall>c\<in>set xs. \<not> Q c" and "\<forall>c\<in>set ys. \<not> P c"
    and "xs @ ys = pre @ c # post" and "Q c"
  shows "\<not> list_ex P post"
proof -
  from split_in_second [OF assms(1,3,4)] obtain us where "ys = us @ c # post" by blast
  with assms(2) show ?thesis by (simp add: list_ex_iff)
qed

section \<open>Cell 9: the parameters\<close>

lemma randint_2: "randint 0 2 r = ([Call_randint 0 2], Inr (int r mod 2))"
  by (simp add: randint_def)

lemma randint_a:
  "randint 1 (2 ^ n) r =
     ([Call_randint 1 (2 ^ n)],
      if n = 0 \<or> 64 \<le> n then Inl ValueError else Inr (1 + int r mod (2 ^ n - 1)))"
proof -
  have "((2::int) ^ 63 < 2 ^ n) = (63 < n)"
    by (rule power_strict_increasing_iff) simp
  then have big: "((2::int) ^ 63 < 2 ^ n) = (64 \<le> n)"
    by (simp only: Suc_le_eq [symmetric]) simp
  have "((2::int) ^ n \<le> 2 ^ 0) = (n \<le> 0)"
    by (rule power_increasing_iff) simp
  then have small: "((2::int) ^ n \<le> 1) = (n = 0)"
    by simp
  show ?thesis
    unfolding randint_def big small by auto
qed

lemma select_parameters_run:
  "select_parameters n e =
     (if int (rnd_oracleType e) mod 2 = 0
      then ([Call_randint 0 2, Call_randint 0 2,
             Call_print (Print_constant (int (rnd_oracleValue e) mod 2))],
            Inr (0, int (rnd_oracleValue e) mod 2, None))
      else ([Call_randint 0 2, Call_randint 0 2, Call_print Print_balanced,
             Call_randint 1 (2 ^ n)],
            if n = 0 \<or> 64 \<le> n then Inl ValueError
            else Inr (1, int (rnd_oracleValue e) mod 2,
                      Some (1 + int (rnd_a e) mod (2 ^ n - 1)))))"
proof -
  have one: "int (rnd_oracleType e) mod 2 \<noteq> 0 \<Longrightarrow> int (rnd_oracleType e) mod 2 = 1"
    by presburger
  show ?thesis
    unfolding select_parameters_def randint_2 randint_a
    using one
    by (simp add: run_bind_def run_then_def call_def ret_def)
qed

lemma n_cell7_in_range: "1 \<le> n_cell7 \<and> n_cell7 \<le> 63"
  by (simp add: n_cell7_def)

lemma select_parameters_bound:
  assumes "snd (select_parameters n e) = Inr (oracleType, oracleValue, a)"
  shows "oracleType = 0 \<or> a \<noteq> None"
  using assms unfolding select_parameters_run by (auto split: if_splits)

lemma select_parameters_no_gate: "gates_of (fst (select_parameters n e)) = []"
  unfolding select_parameters_run by simp

lemma select_parameters_returns:
  assumes "1 \<le> n" and "n \<le> 63"
  shows "\<exists>p. snd (select_parameters n e) = Inr p"
  using assms unfolding select_parameters_run by auto


lemma select_calls_kind:
  "\<forall>c\<in>set (fst (select_parameters n e)). \<not> is_gate c \<and> \<not> is_execute c \<and> \<not> is_plot c"
  unfolding select_parameters_run by simp

lemma select_example_constant:
  "snd (select_parameters 15 example_constant) = Inr (0, 0, None)"
  by (simp add: select_parameters_run example_constant_def)

lemma select_example_balanced:
  "snd (select_parameters 15 example_balanced) = Inr (1, 1, Some 21845)"
  by (simp add: select_parameters_run example_balanced_def)

text \<open>
  C5. The parameter selection returns whenever \<open>1 \<le> n \<le> 63\<close> (the notebook has
  \<open>n = 15\<close>); when it returns, \<open>oracleType\<close> and \<open>oracleValue\<close> are 0 or 1, and
  \<open>a\<close> is bound to an integer with \<open>1 \<le> a < 2 ^ n\<close> when \<open>oracleType\<close> is 1, and
  unbound when it is 0.
\<close>

theorem oracle_parameters_in_range:
  "(1 \<le> n \<and> n \<le> 63 \<longrightarrow> (\<exists>p. snd (select_parameters n e) = Inr p))
   \<and> (\<forall>oracleType oracleValue a.
        snd (select_parameters n e) = Inr (oracleType, oracleValue, a) \<longrightarrow>
          (oracleType = 0 \<or> oracleType = 1) \<and> (oracleValue = 0 \<or> oracleValue = 1)
          \<and> (oracleType = 1 \<longrightarrow> (\<exists>av. a = Some av \<and> 1 \<le> av \<and> av < 2 ^ n))
          \<and> (oracleType = 0 \<longrightarrow> a = None))"
proof -
  have v: "int (rnd_oracleValue e) mod 2 = 0 \<or> int (rnd_oracleValue e) mod 2 = 1"
    by presburger
  have lo: "0 \<le> int (rnd_a e) mod (2 ^ n - 1)" if "0 < n"
    using that by (intro pos_mod_sign) simp
  have hi: "int (rnd_a e) mod (2 ^ n - 1) < 2 ^ n - 1" if "0 < n"
    using that by (intro pos_mod_bound) simp
  have av: "1 \<le> 1 + int (rnd_a e) mod (2 ^ n - 1) \<and> 1 + int (rnd_a e) mod (2 ^ n - 1) < 2 ^ n"
    if "0 < n"
    using lo [OF that] hi [OF that] by linarith
  show ?thesis
    unfolding select_parameters_run
    using v av by (auto split: if_splits)
qed

theorem oracle_parameters_in_range_witness:
  "snd (select_parameters 15 example_balanced) = Inr (1, 1, Some 21845)
   \<and> (1::int) \<le> 21845 \<and> (21845::int) < 2 ^ 15
   \<and> snd (select_parameters 15 example_constant) = Inr (0, 0, None)"
proof -
  have b: "snd (select_parameters 15 example_balanced) = Inr (1, 1, Some 21845)"
    by (simp add: select_parameters_run example_balanced_def)
  have c: "snd (select_parameters 15 example_constant) = Inr (0, 0, None)"
    by (simp add: select_parameters_run example_constant_def)
  from oracle_parameters_in_range [of 15 example_balanced] b
  have "\<exists>av. Some (21845::int) = Some av \<and> 1 \<le> av \<and> av < 2 ^ 15"
    by blast
  then have "(1::int) \<le> 21845 \<and> (21845::int) < 2 ^ 15"
    by blast
  with b c show ?thesis by blast
qed

section \<open>Cell 9: the circuit\<close>

lemma oracle_section_constant:
  "oracle_section n 0 oracleValue a =
     ([Call_gate (if oracleValue = 1 then Gate_x n else Gate_iden n)], Inr ())"
  by (simp add: oracle_section_def call_def)

lemma and_push_bit_1: "(av AND push_bit i 1 \<noteq> 0) = bit (av::int) i"
  by (simp add: and_exp_eq_0_iff_not_bit)

lemma oracle_section_balanced:
  "oracleType \<noteq> 0 \<Longrightarrow> oracle_section n oracleType oracleValue (Some av) =
     (map (\<lambda>i. Call_gate (Gate_cx i n)) (filter (bit av) [0..<n]), Inr ())"
  unfolding oracle_section_def for_range_def and_push_bit_1
  by (simp add: for_each_filter_calls)

lemma oracle_section_unbound:
  "oracleType \<noteq> 0 \<Longrightarrow> oracle_section n oracleType oracleValue None =
     ([], if n = 0 then Inr () else Inl NameError)"
  apply (simp add: oracle_section_def for_range_def)
  apply (cases n)
  apply (simp_all add: ret_def upt_rec raise_def run_then_def run_bind_def)
  done

lemma oracle_section_gates:
  assumes "oracleType = 0 \<or> a \<noteq> None"
  shows "snd (oracle_section n oracleType oracleValue a) = Inr ()"
    and "fst (oracle_section n oracleType oracleValue a) =
      map Call_gate
       (if oracleType = 0 then [if oracleValue = 1 then Gate_x n else Gate_iden n]
        else map (\<lambda>i. Gate_cx i n) (filter (bit (the a)) [0..<n]))"
  using assms
  by (cases "oracleType = 0"; auto simp: oracle_section_constant oracle_section_balanced comp_def)+

lemma construct_circuit_calls:
  assumes "snd (oracle_section n oracleType oracleValue a) = Inr ()"
  shows "construct_circuit n oracleType oracleValue a =
     ([Call_create_quantum_register ''qr'' (n + 1), Call_create_classical_register ''cr'' n,
       Call_create_circuit ''DeutschJosza'']
      @ map (\<lambda>i. Call_gate (Gate_h i)) [0..<n]
      @ [Call_gate (Gate_x n), Call_gate (Gate_h n), Call_gate Gate_barrier]
      @ fst (oracle_section n oracleType oracleValue a)
      @ [Call_gate Gate_barrier]
      @ map (\<lambda>i. Call_gate (Gate_h i)) [0..<n]
      @ map (\<lambda>i. Call_gate (Gate_measure i i)) [0..<n], Inr ())"
  using assms
  by (simp add: construct_circuit_def run_then_call for_range_def for_each_calls run_then_Inr)

lemma construct_circuit_gates:
  assumes "oracleType = 0 \<or> a \<noteq> None"
  shows "gates_of (fst (construct_circuit n oracleType oracleValue a)) =
      map Gate_h [0..<n] @ [Gate_x n, Gate_h n, Gate_barrier]
      @ (if oracleType = 0 then [if oracleValue = 1 then Gate_x n else Gate_iden n]
         else map (\<lambda>i. Gate_cx i n) (filter (bit (the a)) [0..<n]))
      @ [Gate_barrier] @ map Gate_h [0..<n] @ map (\<lambda>i. Gate_measure i i) [0..<n]"
proof -
  note o = oracle_section_gates [OF assms, of n oracleValue]
  show ?thesis
    unfolding construct_circuit_calls [OF o(1)] o(2)
    by (simp add: gates_of_append gates_of_map_gate gates_of_map_Call_gate del: upt_Suc)
qed

lemma construct_calls_kind:
  assumes "oracleType = 0 \<or> a \<noteq> None"
  shows "\<forall>c\<in>set (fst (construct_circuit n oracleType oracleValue a)).
           \<not> is_randint c \<and> \<not> is_execute c \<and> \<not> is_plot c"
proof -
  note o = oracle_section_gates [OF assms, of n oracleValue]
  show ?thesis
    unfolding construct_circuit_calls [OF o(1)] o(2)
    by (auto simp del: upt_Suc)
qed

lemma cell9_run:
  assumes "snd (select_parameters n e) = Inr (oracleType, oracleValue, a)"
  shows "cell9 n e =
     (Call_QuantumProgram # Call_set_api # fst (select_parameters n e)
        @ fst (construct_circuit n oracleType oracleValue a),
      snd (construct_circuit n oracleType oracleValue a))"
  using assms by (simp add: cell9_def run_then_call run_bind_def)

lemma cell9_stops:
  assumes "snd (select_parameters n e) = Inl err"
  shows "cell9 n e = (Call_QuantumProgram # Call_set_api # fst (select_parameters n e), Inl err)"
  using assms by (simp add: cell9_def run_then_call run_bind_def)

lemma cell9_returns_iff:
  "(snd (cell9 n e) = Inr ()) = (\<exists>p. snd (select_parameters n e) = Inr p)"
proof (cases "snd (select_parameters n e)")
  case (Inl err)
  then show ?thesis by (simp add: cell9_stops)
next
  case (Inr p)
  obtain oracleType oracleValue a where p: "p = (oracleType, oracleValue, a)"
    by (cases p)
  from Inr p have sel: "snd (select_parameters n e) = Inr (oracleType, oracleValue, a)"
    by simp
  from oracle_section_gates(1) [OF select_parameters_bound [OF sel]]
  have "snd (construct_circuit n oracleType oracleValue a) = Inr ()"
    by (simp add: construct_circuit_calls)
  then show ?thesis
    using sel by (simp add: cell9_run [OF sel])
qed

lemma cell9_gates:
  assumes "snd (select_parameters n e) = Inr (oracleType, oracleValue, a)"
  shows "gates_of (fst (cell9 n e)) =
      map Gate_h [0..<n] @ [Gate_x n, Gate_h n, Gate_barrier]
      @ (case a of None \<Rightarrow> [if oracleValue = 1 then Gate_x n else Gate_iden n]
         | Some av \<Rightarrow> map (\<lambda>i. Gate_cx i n) (filter (bit av) [0..<n]))
      @ [Gate_barrier] @ map Gate_h [0..<n] @ map (\<lambda>i. Gate_measure i i) [0..<n]"
proof -
  note b = select_parameters_bound [OF assms]
  have a: "(a = None) = (oracleType = 0)"
    using assms unfolding select_parameters_run by (auto split: if_splits)
  have "gates_of (fst (cell9 n e)) = gates_of (fst (construct_circuit n oracleType oracleValue a))"
    by (simp add: cell9_run [OF assms] gates_of_append select_parameters_no_gate)
  then show ?thesis
    unfolding construct_circuit_gates [OF b]
    using a by (cases a) simp_all
qed

lemma cell9_classical_register:
  assumes "snd (select_parameters n e) = Inr (oracleType, oracleValue, a)"
  shows "filter is_create_classical_register (fst (cell9 n e)) =
           [Call_create_classical_register ''cr'' n]"
proof -
  note b = select_parameters_bound [OF assms]
  note o = oracle_section_gates [OF b, of n oracleValue]
  have sel: "filter is_create_classical_register (fst (select_parameters n e)) = []"
    unfolding select_parameters_run by simp
  have g: "\<And>gs. filter is_create_classical_register (map Call_gate gs) = []"
    by (simp add: filter_empty_conv)
  have h: "\<And>f is. filter is_create_classical_register (map (\<lambda>i. Call_gate (f i)) is) = []"
    by (simp add: filter_empty_conv)
  show ?thesis
    unfolding cell9_run [OF assms] construct_circuit_calls [OF o(1)] o(2)
    by (simp add: sel g h del: upt_Suc)
qed

lemma cell9_calls_kind:
  "\<exists>A B. fst (cell9 n e) = A @ B
     \<and> (\<forall>c\<in>set A. \<not> is_gate c \<and> \<not> is_execute c \<and> \<not> is_plot c)
     \<and> (\<forall>c\<in>set B. \<not> is_randint c \<and> \<not> is_execute c \<and> \<not> is_plot c)"
proof -
  let ?A = "Call_QuantumProgram # Call_set_api # fst (select_parameters n e)"
  have A: "\<forall>c\<in>set ?A. \<not> is_gate c \<and> \<not> is_execute c \<and> \<not> is_plot c"
    using select_calls_kind [of n e] by simp
  show ?thesis
  proof (cases "snd (select_parameters n e)")
    case (Inl err)
    have "fst (cell9 n e) = ?A @ []"
      by (simp add: cell9_stops [OF Inl])
    moreover have "\<forall>c\<in>set ([] :: call list). \<not> is_randint c \<and> \<not> is_execute c \<and> \<not> is_plot c"
      by simp
    ultimately have "fst (cell9 n e) = ?A @ []
       \<and> (\<forall>c\<in>set ?A. \<not> is_gate c \<and> \<not> is_execute c \<and> \<not> is_plot c)
       \<and> (\<forall>c\<in>set ([] :: call list). \<not> is_randint c \<and> \<not> is_execute c \<and> \<not> is_plot c)"
      using A by (intro conjI)
    then show ?thesis
      by (intro exI)
  next
    case (Inr p)
    obtain oracleType oracleValue a where p: "p = (oracleType, oracleValue, a)"
      by (cases p)
    from Inr p have sel: "snd (select_parameters n e) = Inr (oracleType, oracleValue, a)"
      by simp
    let ?B = "fst (construct_circuit n oracleType oracleValue a)"
    have "fst (cell9 n e) = ?A @ ?B"
      by (simp add: cell9_run [OF sel])
    moreover note A construct_calls_kind [OF select_parameters_bound [OF sel], of n oracleValue]
    ultimately have "fst (cell9 n e) = ?A @ ?B
       \<and> (\<forall>c\<in>set ?A. \<not> is_gate c \<and> \<not> is_execute c \<and> \<not> is_plot c)
       \<and> (\<forall>c\<in>set ?B. \<not> is_randint c \<and> \<not> is_execute c \<and> \<not> is_plot c)"
      by (intro conjI)
    then show ?thesis
      by (intro exI)
  qed
qed

lemma cell9_no_plot: "\<forall>c\<in>set (fst (cell9 n e)). \<not> is_execute c \<and> \<not> is_plot c"
proof -
  from cell9_calls_kind [of n e] obtain A B where "fst (cell9 n e) = A @ B"
    and "\<forall>c\<in>set A. \<not> is_gate c \<and> \<not> is_execute c \<and> \<not> is_plot c"
    and "\<forall>c\<in>set B. \<not> is_randint c \<and> \<not> is_execute c \<and> \<not> is_plot c"
    by blast
  then show ?thesis by auto
qed



lemma cell9_returns_example_balanced: "snd (cell9 15 example_balanced) = Inr ()"
  using select_example_balanced by (simp add: cell9_returns_iff)

lemma cell9_returns_example_constant: "snd (cell9 15 example_constant) = Inr ()"
  using select_example_constant by (simp add: cell9_returns_iff)

lemma filter_measure_gates:
  "filter is_measure
     (map Gate_h xs @ [Gate_x n, Gate_h n, Gate_barrier]
      @ (case a of None \<Rightarrow> [if oracleValue = 1 then Gate_x n else Gate_iden n]
         | Some av \<Rightarrow> map (\<lambda>i. Gate_cx i n) (filter (bit av) ys))
      @ [Gate_barrier] @ map Gate_h xs @ map (\<lambda>i. Gate_measure i i) zs)
   = map (\<lambda>i. Gate_measure i i) zs"
proof -
  have h: "\<And>is. filter is_measure (map Gate_h is) = []"
    by (simp add: filter_empty_conv)
  have c: "\<And>is. filter is_measure (map (\<lambda>i. Gate_cx i n) is) = []"
    by (simp add: filter_empty_conv)
  have m: "\<And>is. filter is_measure (map (\<lambda>i. Gate_measure i i) is) = map (\<lambda>i. Gate_measure i i) is"
    by (simp add: filter_id_conv)
  show ?thesis
    by (cases a) (simp_all add: h c m)
qed

lemma bits_21845: "filter (bit (21845::int)) [0..<15] = [0, 2, 4, 6, 8, 10, 12, 14]"
  by code_simp

text \<open>
  C3, as the claim states it, fails: the run with the constant oracle appends 50 gates
  and the run with the balanced oracle of \<open>a = 21845\<close> appends 57.
\<close>

theorem gate_sequence_depends_on_parameters:
  "snd (cell9 15 example_constant) = Inr ()
   \<and> snd (cell9 15 example_balanced) = Inr ()
   \<and> length (gates_of (fst (cell9 15 example_constant))) = 50
   \<and> length (gates_of (fst (cell9 15 example_balanced))) = 57
   \<and> gates_of (fst (cell9 15 example_constant)) \<noteq> gates_of (fst (cell9 15 example_balanced))"
proof -
  have c: "length (gates_of (fst (cell9 15 example_constant))) = 50"
    by (simp add: cell9_gates [OF select_example_constant] del: upt_Suc)
  have b: "length (gates_of (fst (cell9 15 example_balanced))) = 57"
    by (simp add: cell9_gates [OF select_example_balanced] bits_21845 del: upt_Suc)
  have "gates_of (fst (cell9 15 example_constant)) \<noteq> gates_of (fst (cell9 15 example_balanced))"
    using c b by auto
  moreover have "snd (cell9 15 example_constant) = Inr ()"
    using select_example_constant by (simp add: cell9_returns_iff)
  moreover have "snd (cell9 15 example_balanced) = Inr ()"
    using select_example_balanced by (simp add: cell9_returns_iff)
  ultimately show ?thesis using c b by blast
qed

text \<open>
  C3, amended. Cell 9 completes whenever \<open>1 \<le> n \<le> 63\<close>, and in every run that
  completes the gates outside the oracle section are the same: \<open>n\<close> Hadamard gates, X and
  H on the answer qubit and a barrier before it; a barrier, \<open>n\<close> Hadamard gates and \<open>n\<close>
  measurements after it. The oracle section between the barriers depends on the
  parameters drawn: one X gate (\<open>oracleValue\<close> 1) or one identity gate on the answer
  qubit for the constant oracle, one CNOT for each set bit of \<open>a\<close> for the balanced one.
\<close>

theorem gates_outside_oracle_fixed:
  "(1 \<le> n \<and> n \<le> 63 \<longrightarrow> snd (cell9 n e) = Inr ())
   \<and> (snd (cell9 n e) = Inr () \<longrightarrow>
       (\<exists>oracleType oracleValue a.
          snd (select_parameters n e) = Inr (oracleType, oracleValue, a)
          \<and> gates_of (fst (cell9 n e)) =
              map Gate_h [0..<n] @ [Gate_x n, Gate_h n, Gate_barrier]
              @ (case a of None \<Rightarrow> [if oracleValue = 1 then Gate_x n else Gate_iden n]
                 | Some av \<Rightarrow> map (\<lambda>i. Gate_cx i n) (filter (bit av) [0..<n]))
              @ [Gate_barrier] @ map Gate_h [0..<n] @ map (\<lambda>i. Gate_measure i i) [0..<n]))"
proof (intro conjI impI)
  assume "1 \<le> n \<and> n \<le> 63"
  then have "\<exists>p. snd (select_parameters n e) = Inr p"
    by (intro select_parameters_returns) simp_all
  then show "snd (cell9 n e) = Inr ()"
    by (simp only: cell9_returns_iff)
next
  assume "snd (cell9 n e) = Inr ()"
  then obtain p where "snd (select_parameters n e) = Inr p"
    by (auto simp: cell9_returns_iff)
  then obtain oracleType oracleValue a
    where sel: "snd (select_parameters n e) = Inr (oracleType, oracleValue, a)"
    by (cases p) auto
  from sel cell9_gates [OF sel]
  show "\<exists>oracleType oracleValue a.
          snd (select_parameters n e) = Inr (oracleType, oracleValue, a)
          \<and> gates_of (fst (cell9 n e)) =
              map Gate_h [0..<n] @ [Gate_x n, Gate_h n, Gate_barrier]
              @ (case a of None \<Rightarrow> [if oracleValue = 1 then Gate_x n else Gate_iden n]
                 | Some av \<Rightarrow> map (\<lambda>i. Gate_cx i n) (filter (bit av) [0..<n]))
              @ [Gate_barrier] @ map Gate_h [0..<n] @ map (\<lambda>i. Gate_measure i i) [0..<n]"
    by blast
qed

theorem gates_outside_oracle_fixed_witness:
  "snd (cell9 15 example_balanced) = Inr ()
   \<and> gates_of (fst (cell9 15 example_balanced)) =
        map Gate_h [0..<15] @ [Gate_x 15, Gate_h 15, Gate_barrier]
        @ map (\<lambda>i. Gate_cx i 15) [0, 2, 4, 6, 8, 10, 12, 14]
        @ [Gate_barrier] @ map Gate_h [0..<15] @ map (\<lambda>i. Gate_measure i i) [0..<15]"
proof -
  have n: "1 \<le> (15::nat) \<and> (15::nat) \<le> 63" by simp
  from gates_outside_oracle_fixed [of 15 example_balanced] n
  have r: "snd (cell9 15 example_balanced) = Inr ()" by blast
  with gates_outside_oracle_fixed [of 15 example_balanced]
  obtain oracleType oracleValue a where
    sel: "snd (select_parameters 15 example_balanced) = Inr (oracleType, oracleValue, a)"
    and g: "gates_of (fst (cell9 15 example_balanced)) =
              map Gate_h [0..<15] @ [Gate_x 15, Gate_h 15, Gate_barrier]
              @ (case a of None \<Rightarrow> [if oracleValue = 1 then Gate_x 15 else Gate_iden 15]
                 | Some av \<Rightarrow> map (\<lambda>i. Gate_cx i 15) (filter (bit av) [0..<15]))
              @ [Gate_barrier] @ map Gate_h [0..<15] @ map (\<lambda>i. Gate_measure i i) [0..<15]"
    by blast
  from sel have "a = Some 21845"
    by (simp add: select_example_balanced)
  with g r show ?thesis
    by (simp only: option.case bits_21845 simp_thms)
qed

text \<open>
  C10. In every run of cell 9 that completes (every run when \<open>1 \<le> n \<le> 63\<close>), one
  classical register is created, of size \<open>n\<close>; the measurements appended are exactly
  \<open>measure(qr[i], cr[i])\<close> for \<open>i = 0, ..., n - 1\<close>, in this order, so there are \<open>n\<close> of
  them; and the answer qubit \<open>qr[n]\<close> is never measured.
\<close>

theorem measures_query_register_only:
  "(1 \<le> n \<and> n \<le> 63 \<longrightarrow> snd (cell9 n e) = Inr ())
   \<and> (snd (cell9 n e) = Inr () \<longrightarrow>
        filter is_create_classical_register (fst (cell9 n e)) =
          [Call_create_classical_register ''cr'' n]
        \<and> filter is_measure (gates_of (fst (cell9 n e))) = map (\<lambda>i. Gate_measure i i) [0..<n]
        \<and> length (filter is_measure (gates_of (fst (cell9 n e)))) = n
        \<and> (\<forall>c. Gate_measure n c \<notin> set (gates_of (fst (cell9 n e)))))"
proof (intro conjI impI)
  assume "1 \<le> n \<and> n \<le> 63"
  then have "\<exists>p. snd (select_parameters n e) = Inr p"
    by (intro select_parameters_returns) simp_all
  then show "snd (cell9 n e) = Inr ()"
    by (simp only: cell9_returns_iff)
next
  assume r: "snd (cell9 n e) = Inr ()"
  then obtain p where "snd (select_parameters n e) = Inr p"
    by (auto simp: cell9_returns_iff)
  then obtain oracleType oracleValue a
    where sel: "snd (select_parameters n e) = Inr (oracleType, oracleValue, a)"
    by (cases p) auto
  show "filter is_create_classical_register (fst (cell9 n e)) =
          [Call_create_classical_register ''cr'' n]"
    by (rule cell9_classical_register [OF sel])
  show m: "filter is_measure (gates_of (fst (cell9 n e))) = map (\<lambda>i. Gate_measure i i) [0..<n]"
    unfolding cell9_gates [OF sel] by (rule filter_measure_gates)
  then show "length (filter is_measure (gates_of (fst (cell9 n e)))) = n"
    by simp
  show "\<forall>c. Gate_measure n c \<notin> set (gates_of (fst (cell9 n e)))"
  proof
    fix c
    show "Gate_measure n c \<notin> set (gates_of (fst (cell9 n e)))"
    proof
      assume "Gate_measure n c \<in> set (gates_of (fst (cell9 n e)))"
      then have "Gate_measure n c \<in> set (filter is_measure (gates_of (fst (cell9 n e))))"
        by simp
      then show False
        unfolding m by auto
    qed
  qed
qed

theorem measures_query_register_only_witness:
  "snd (cell9 15 example_balanced) = Inr ()
   \<and> filter is_create_classical_register (fst (cell9 15 example_balanced)) =
        [Call_create_classical_register ''cr'' 15]
   \<and> filter is_measure (gates_of (fst (cell9 15 example_balanced))) =
        map (\<lambda>i. Gate_measure i i) [0..<15]
   \<and> length (filter is_measure (gates_of (fst (cell9 15 example_balanced)))) = 15"
proof -
  have n: "1 \<le> (15::nat) \<and> (15::nat) \<le> 63" by simp
  from measures_query_register_only [of 15 example_balanced] n
  have r: "snd (cell9 15 example_balanced) = Inr ()" by blast
  with measures_query_register_only [of 15 example_balanced] show ?thesis
    by blast
qed

section \<open>The oracle on computational basis states\<close>

lemma apply_gates_cx:
  "length s = Suc n \<Longrightarrow> \<forall>i\<in>set is. i < n \<Longrightarrow>
   apply_gates (map (\<lambda>i. Gate_cx i n) is) s =
     Some (s[n := (s ! n \<noteq> odd (length (filter (\<lambda>i. s ! i) is)))])"
proof (induction "is" arbitrary: s)
  case Nil
  then show ?case by (simp add: list_update_same_conv)
next
  case (Cons i "is")
  let ?s' = "s[n := (s ! n \<noteq> s ! i)]"
  from Cons.prems have i: "i < n" and rest: "\<forall>j\<in>set is. j < n" by simp_all
  have step: "apply_gate (Gate_cx i n) s = Some ?s'"
    using Cons.prems(1) i by simp
  have same: "filter (\<lambda>j. ?s' ! j) is = filter (\<lambda>j. s ! j) is"
    using rest by (intro filter_cong) auto
  have "apply_gates (map (\<lambda>i. Gate_cx i n) is) ?s' =
          Some (?s'[n := (?s' ! n \<noteq> odd (length (filter (\<lambda>j. ?s' ! j) is)))])"
    using Cons.prems(1) rest by (intro Cons.IH) simp_all
  then show ?case
    using step same Cons.prems(1) by (cases "s ! i") auto
qed

lemma length_basis: "length (basis n x y) = Suc n"
  by (simp add: basis_def)

lemma basis_nth_answer: "basis n x y ! n = y"
  by (simp add: basis_def nth_append)

lemma basis_nth_query: "i < n \<Longrightarrow> basis n x y ! i = bit x i"
  by (simp add: basis_def nth_append)

lemma basis_update: "(basis n x y)[n := z] = basis n x z"
  by (simp add: basis_def list_update_append)

lemma parity_and:
  "parity n (a AND x) = (if odd (length (filter (bit x) (filter (bit a) [0..<n]))) then 1 else 0)"
proof -
  have "filter (bit (a AND x)) [0..<n] = filter (\<lambda>i. bit a i \<and> bit x i) [0..<n]"
    by (intro filter_cong) (simp_all add: bit_and_iff)
  then show ?thesis
    by (simp add: parity_def conj_commute)
qed

lemma apply_gates_cx_basis:
  "apply_gates (map (\<lambda>i. Gate_cx i n) (filter (bit a) [0..<n])) (basis n x y) =
     Some (basis n x (y \<noteq> (parity n (a AND x) = 1)))"
proof -
  have "filter (\<lambda>i. basis n x y ! i) (filter (bit a) [0..<n]) = filter (bit x) (filter (bit a) [0..<n])"
    by (intro filter_cong) (auto simp: basis_nth_query)
  then show ?thesis
    by (simp add: apply_gates_cx length_basis basis_nth_answer basis_update parity_and)
qed

lemma oracle_f_x: "oracle_f n [Gate_x n] x = Some 1"
  by (simp add: oracle_f_def length_basis basis_nth_answer)

lemma oracle_f_iden: "oracle_f n [Gate_iden n] x = Some 0"
  by (simp add: oracle_f_def length_basis basis_nth_answer)

lemma set_bit_below:
  assumes "1 \<le> a" "a < 2 ^ n"
  shows "\<exists>k<n. bit (a::int) k"
proof -
  from assms have "a \<noteq> 0" by simp
  then obtain k where k: "bit a k"
    by (auto simp: bit_eq_iff)
  have "k < n"
  proof (rule ccontr)
    assume "\<not> k < n"
    then have "(2::int) ^ n \<le> 2 ^ k" by simp
    with assms have "0 \<le> a" "a < 2 ^ k" by linarith+
    then have "a div 2 ^ k = 0" by (rule div_pos_pos_trivial)
    with k show False by (simp add: bit_iff_odd)
  qed
  with k show ?thesis by blast
qed

lemma parity_flip:
  assumes k: "k < n" and ak: "bit a k"
  shows "parity n (a AND (x XOR 2 ^ k)) = 1 - parity n (a AND x)"
proof -
  let ?P = "\<lambda>y i. bit a i \<and> bit (y::int) i"
  have split: "[0..<n] = [0..<k] @ k # [Suc k..<n]"
    using k by (metis le0 upt_add_eq_append upt_conv_Cons le_add_diff_inverse less_imp_le_nat)
  have pre: "filter (?P (x XOR 2 ^ k)) [0..<k] = filter (?P x) [0..<k]"
    by (intro filter_cong) (auto simp: bit_xor_iff bit_exp_iff)
  have post: "filter (?P (x XOR 2 ^ k)) [Suc k..<n] = filter (?P x) [Suc k..<n]"
    by (intro filter_cong) (auto simp: bit_xor_iff bit_exp_iff)
  have at: "?P (x XOR 2 ^ k) k = (\<not> ?P x k)"
    using ak by (simp add: bit_xor_iff bit_exp_iff)
  have eq: "\<And>y. filter (bit (a AND y)) [0..<n] = filter (?P y) [0..<n]"
    by (intro filter_cong) (simp_all add: bit_and_iff)
  show ?thesis
    unfolding parity_def eq
    apply (subst (1 2) split)
    using at by (simp add: pre post del: upt_Suc)
qed

lemma xor_exp_in_range:
  assumes "k < n" "0 \<le> x" "x < 2 ^ n"
  shows "0 \<le> x XOR 2 ^ k \<and> x XOR 2 ^ k < (2::int) ^ n"
proof -
  have "take_bit n x = x" using assms by (simp add: take_bit_int_eq_self)
  moreover have "take_bit n ((2::int) ^ k) = 2 ^ k"
    using assms(1) by (simp add: take_bit_int_eq_self)
  moreover have "take_bit n (x XOR 2 ^ k) = take_bit n x XOR take_bit n (2 ^ k)"
    by (rule take_bit_xor)
  ultimately have "take_bit n (x XOR 2 ^ k) = x XOR 2 ^ k"
    by (simp only:)
  then show ?thesis
    by (simp only: take_bit_int_eq_self_iff)
qed

lemma parity_01: "parity n k = 0 \<or> parity n k = 1"
  by (simp add: parity_def)

lemma parity_balanced:
  assumes "1 \<le> a" "a < 2 ^ n"
  shows "2 * card {x \<in> {0..<2 ^ n}. parity n (a AND x) = 0} = (2::nat) ^ n"
proof -
  from set_bit_below [OF assms] obtain k where k: "k < n" "bit a k" by blast
  let ?S = "{0..<(2::int) ^ n}"
  let ?A = "{x \<in> ?S. parity n (a AND x) = 0}"
  let ?B = "{x \<in> ?S. parity n (a AND x) = 1}"
  let ?f = "\<lambda>x::int. x XOR 2 ^ k"
  have inv: "\<And>x. ?f (?f x) = x"
    by (simp add: xor.assoc)
  have flip: "\<And>x. parity n (a AND ?f x) = 1 - parity n (a AND x)"
    by (rule parity_flip [OF k])
  have rng: "\<And>x. x \<in> ?S \<Longrightarrow> ?f x \<in> ?S"
    using xor_exp_in_range [OF k(1)] by simp
  have "bij_betw ?f ?A ?B"
  proof (rule bij_betw_byWitness [where f' = ?f])
    show "?f ` ?A \<subseteq> ?B" using rng flip by auto
    show "?f ` ?B \<subseteq> ?A" using rng flip by auto
  qed (simp_all add: inv)
  then have AB: "card ?A = card ?B" by (rule bij_betw_same_card)
  have un: "?A \<union> ?B = ?S" using parity_01 by auto
  have dis: "?A \<inter> ?B = {}" by auto
  have finA: "finite ?A" by (rule finite_subset [of _ ?S]) auto
  have finB: "finite ?B" by (rule finite_subset [of _ ?S]) auto
  have "card (?A \<union> ?B) = card ?A + card ?B"
    using finA finB dis by (rule card_Un_disjoint)
  then have "card ?S = card ?A + card ?A"
    by (simp only: un AB)
  moreover have "card ?S = 2 ^ n"
    by (simp add: nat_power_eq)
  ultimately show ?thesis by linarith
qed

text \<open>
  C1. For every hidden parameter \<open>a\<close> with \<open>1 \<le> a < 2 ^ n\<close>, the CNOT sequence of the
  balanced oracle runs without error and maps the basis state of the query \<open>x\<close> and
  the answer bit \<open>y\<close> to the one with \<open>y\<close> plus the parity of \<open>a AND x\<close>; its boolean
  function is that parity, and it is 0 on exactly half of the \<open>2 ^ n\<close> queries.
\<close>

theorem balanced_oracle_is_balanced:
  assumes "1 \<le> a" and "a < 2 ^ n"
  shows "snd (oracle_section n 1 oracleValue (Some a)) = Inr ()
     \<and> (\<forall>x y. apply_gates (gates_of (fst (oracle_section n 1 oracleValue (Some a)))) (basis n x y)
            = Some (basis n x (y \<noteq> (parity n (a AND x) = 1))))
     \<and> (\<forall>x. oracle_f n (gates_of (fst (oracle_section n 1 oracleValue (Some a)))) x
            = Some (parity n (a AND x)))
     \<and> 2 * card {x \<in> {0..<2 ^ n}.
            oracle_f n (gates_of (fst (oracle_section n 1 oracleValue (Some a)))) x = Some 0}
         = 2 ^ n"
proof -
  let ?gs = "gates_of (fst (oracle_section n 1 oracleValue (Some a)))"
  have gs: "?gs = map (\<lambda>i. Gate_cx i n) (filter (bit a) [0..<n])"
    by (simp add: oracle_section_balanced gates_of_map_gate)
  have run: "\<And>x y. apply_gates ?gs (basis n x y) = Some (basis n x (y \<noteq> (parity n (a AND x) = 1)))"
    unfolding gs by (rule apply_gates_cx_basis)
  have f: "\<And>x. oracle_f n ?gs x = Some (parity n (a AND x))"
    using parity_01 [of n "a AND x" for x]
    by (auto simp: oracle_f_def run basis_nth_answer)
  have "{x \<in> {0..<2 ^ n}. oracle_f n ?gs x = Some 0} = {x \<in> {0..<2 ^ n}. parity n (a AND x) = 0}"
    by (simp add: f)
  then have "2 * card {x \<in> {0..<2 ^ n}. oracle_f n ?gs x = Some 0} = 2 ^ n"
    using parity_balanced [OF assms] by (simp only:)
  moreover have "snd (oracle_section n 1 oracleValue (Some a)) = Inr ()"
    by (simp add: oracle_section_balanced)
  ultimately show ?thesis
    using run f by blast
qed

theorem balanced_oracle_is_balanced_witness:
  "1 \<le> (21845::int) \<and> (21845::int) < 2 ^ 15
   \<and> oracle_f 15 (gates_of (fst (oracle_section 15 1 0 (Some 21845)))) 3 = Some (parity 15 (21845 AND 3))
   \<and> 2 * card {x \<in> {0..<2 ^ 15}.
            oracle_f 15 (gates_of (fst (oracle_section 15 1 0 (Some 21845)))) x = Some 0}
         = 2 ^ 15"
proof -
  have h1: "1 \<le> (21845::int)" by simp
  have h2: "(21845::int) < 2 ^ 15" by simp
  from balanced_oracle_is_balanced [OF h1 h2, of 0] h1 h2 show ?thesis by blast
qed

text \<open>
  C2. When \<open>oracleType\<close> is 0, the oracle is one X gate on the answer qubit if
  \<open>oracleValue\<close> is 1 and one identity gate otherwise, and its boolean function is
  \<open>oracleValue\<close> on every query.
\<close>

theorem constant_oracle_is_constant:
  assumes "oracleValue = 0 \<or> oracleValue = 1"
  shows "oracle_section n 0 oracleValue a =
           ([Call_gate (if oracleValue = 1 then Gate_x n else Gate_iden n)], Inr ())
     \<and> (\<forall>x. oracle_f n (gates_of (fst (oracle_section n 0 oracleValue a))) x = Some oracleValue)"
  using assms
  by (auto simp: oracle_section_constant oracle_f_x oracle_f_iden)

theorem constant_oracle_is_constant_witness:
  "oracle_section 15 0 1 None = ([Call_gate (Gate_x 15)], Inr ())
   \<and> oracle_f 15 (gates_of (fst (oracle_section 15 0 1 None))) 12345 = Some 1
   \<and> oracle_section 15 0 0 None = ([Call_gate (Gate_iden 15)], Inr ())
   \<and> oracle_f 15 (gates_of (fst (oracle_section 15 0 0 None))) 12345 = Some 0"
  using constant_oracle_is_constant [of 1 15 None, simplified]
    constant_oracle_is_constant [of 0 15 None, simplified]
  by blast

section \<open>Cell 13: the threshold and the filtering\<close>

declare bitlen.simps [simp del]

lemma threshold_30: "threshold = 30"
  by (simp add: threshold_def shots_def round53_def Let_def bitlen.simps)

lemma dict_setitem_new:
  "k \<notin> fst ` set d \<Longrightarrow> dict_setitem k v d = d @ [(k, v)]"
  by (induction d) auto

lemma dict_setitem_has_key: "k \<in> fst ` set (dict_setitem k v d)"
  by (induction d) auto

lemma dict_setitem_other:
  "(k', v') \<in> set (dict_setitem k v d) \<Longrightarrow> k' \<noteq> k \<Longrightarrow> (k', v') \<in> set d"
  by (induction d) (auto split: if_splits)



lemma sum_list_split:
  "sum_list (map snd (filter (\<lambda>(k, v). t \<le> v) xs))
     + sum_list (map snd (filter (\<lambda>(k, v). v < t) xs))
   = sum_list (map snd (xs :: counts))"
  by (induction xs) auto

lemma kept_keys: "fst ` set (filter P d) \<subseteq> fst ` set d"
  by auto

lemma wrap_int64_id: "0 \<le> x \<Longrightarrow> x < 2 ^ 63 \<Longrightarrow> wrap_int64 x = x"
  by (simp add: wrap_int64_def)

lemma removed_sum_bounds:
  assumes "list_all (\<lambda>(k, v). 0 \<le> v) (xs :: counts)"
  shows "0 \<le> sum_list (map snd (filter P xs))"
    and "sum_list (map snd (filter P xs)) \<le> sum_list (map snd xs)"
  using assms by (induction xs) auto

lemma removedCounts_in_range:
  assumes "counts_in_range answer"
  shows "removedCounts t answer = sum_list (map snd (filter (\<lambda>(k, v). v < t) answer))"
proof -
  from assms have nn: "list_all (\<lambda>(k, v). 0 \<le> v) answer"
    and total: "sum_list (map snd answer) < 2 ^ 63"
    by (simp_all add: counts_in_range_def)
  from removed_sum_bounds [OF nn, of "\<lambda>(k, v). v < t"] total
  have "0 \<le> sum_list (map snd (filter (\<lambda>(k, v). v < t) answer))"
    and "sum_list (map snd (filter (\<lambda>(k, v). v < t) answer)) < 2 ^ 63"
    by linarith+
  then show ?thesis
    unfolding removedCounts_def np_sum_def by (rule wrap_int64_id)
qed

lemma removedCounts_wraps:
  "removedCounts 0 [(''0'', - (2 ^ 63)), (''1'', - 1)] = 2 ^ 63 - 1"
  "removedCounts (2 ^ 63) [(''0'', 2 ^ 62), (''1'', 2 ^ 62)] = - (2 ^ 63)"
  by (simp_all add: removedCounts_def np_sum_def wrap_int64_def)

lemma filteredAnswer_new:
  assumes "''other_bitstring'' \<notin> fst ` set answer"
  shows "filteredAnswer t answer =
           filter (\<lambda>(k, v). t \<le> v) answer @ [(''other_bitstring'', removedCounts t answer)]"
proof -
  have "fst ` set (filter (\<lambda>(k, v). t \<le> v) answer) \<subseteq> fst ` set answer"
    by (rule kept_keys)
  with assms have new: "''other_bitstring'' \<notin> fst ` set (filter (\<lambda>(k, v). t \<le> v) answer)"
    by (rule contra_subsetD [rotated])
  show ?thesis
    unfolding filteredAnswer_def
    by (rule dict_setitem_new [OF new])
qed



lemma filteredAnswer_keys:
  "''other_bitstring'' \<in> fst ` set (filteredAnswer t answer)"
  "(k, v) \<in> set (filteredAnswer t answer) \<Longrightarrow> k \<noteq> ''other_bitstring''
     \<Longrightarrow> (k, v) \<in> set answer \<and> t \<le> v"
proof -
  show "''other_bitstring'' \<in> fst ` set (filteredAnswer t answer)"
    unfolding filteredAnswer_def by (rule dict_setitem_has_key)
  assume "(k, v) \<in> set (filteredAnswer t answer)" and "k \<noteq> ''other_bitstring''"
  then have "(k, v) \<in> set (filter (\<lambda>(k, v). t \<le> v) answer)"
    unfolding filteredAnswer_def by (rule dict_setitem_other)
  then show "(k, v) \<in> set answer \<and> t \<le> v" by simp
qed

lemma filtered_example:
  "filteredAnswer threshold [(''101010101010101'', 900), (''101010101010100'', 80),
                             (''000000000000000'', 20)]
     = [(''101010101010101'', 900), (''101010101010100'', 80), (''other_bitstring'', 20)]"
  by (simp add: filteredAnswer_def removedCounts_def np_sum_def wrap_int64_def threshold_30)

lemma example_counts_in_range:
  "counts_in_range [(''101010101010101'', 900 :: int), (''101010101010100'', 80), (''000000000000000'', 20)]"
  by (simp add: counts_in_range_def)


text \<open>
  C8. For every counts dictionary without the key \<open>other_bitstring\<close> (its counts not
  negative, their total below \<open>2 ^ 63\<close>, as the counts of a job are) and every
  threshold, the values of the filtered dictionary, the entry \<open>other_bitstring\<close>
  included, add up to the values of the dictionary.
\<close>

theorem filtering_conserves_counts:
  assumes "''other_bitstring'' \<notin> fst ` set answer" and "counts_in_range answer"
  shows "sum_list (map snd (filteredAnswer t answer)) = sum_list (map snd answer)"
  by (simp add: filteredAnswer_new [OF assms(1)] removedCounts_in_range [OF assms(2)]
        sum_list_split)

theorem filtering_conserves_counts_witness:
  "''other_bitstring'' \<notin> fst ` set [(''101010101010101'', 900 :: int), (''101010101010100'', 80), (''000000000000000'', 20)]
   \<and> counts_in_range [(''101010101010101'', 900 :: int), (''101010101010100'', 80), (''000000000000000'', 20)]
   \<and> filteredAnswer threshold [(''101010101010101'', 900), (''101010101010100'', 80), (''000000000000000'', 20)] = [(''101010101010101'', 900), (''101010101010100'', 80), (''other_bitstring'', 20)]
   \<and> sum_list (map snd (filteredAnswer threshold [(''101010101010101'', 900), (''101010101010100'', 80), (''000000000000000'', 20)])) = sum_list (map snd [(''101010101010101'', 900 :: int), (''101010101010100'', 80), (''000000000000000'', 20)])"
proof -
  have k: "''other_bitstring'' \<notin> fst ` set [(''101010101010101'', 900 :: int), (''101010101010100'', 80), (''000000000000000'', 20)]"
    by simp
  note r = example_counts_in_range
  note f = filtered_example
  show ?thesis
    by (rule conjI [OF k conjI [OF r conjI [OF f
          filtering_conserves_counts [OF k r, of threshold]]]])
qed



section \<open>The backends and the histograms\<close>

lemma cell11_run:
  "cell11 e =
     (case job_simulator e of
        Inl msg \<Rightarrow>
          ([Call_execute ''ibmqx_hpc_qasm_simulator'' shots None,
            Call_get_counts ''DeutschJosza'' None], Inl (QISKitError msg))
      | Inr d \<Rightarrow>
          ([Call_execute ''ibmqx_hpc_qasm_simulator'' shots None,
            Call_get_counts ''DeutschJosza'' (Some d), Call_plot_histogram d], Inr ()))"
  by (simp add: cell11_def get_counts_def run_then_def run_bind_def call_def split: sum.splits)

lemma cell13_run:
  "cell13 e =
     (case job_device e of
        Inl msg \<Rightarrow>
          ([Call_execute ''ibmqx5'' shots (Some 480),
            Call_get_counts ''DeutschJosza'' None], Inl (QISKitError msg))
      | Inr answer \<Rightarrow>
          ([Call_execute ''ibmqx5'' shots (Some 480),
            Call_get_counts ''DeutschJosza'' (Some answer),
            Call_plot_histogram (filteredAnswer threshold answer),
            Call_print (Print_counts (filteredAnswer threshold answer))], Inr ()))"
  by (simp add: cell13_def get_counts_def run_then_def run_bind_def call_def split: sum.splits)

lemma cell11_plot:
  assumes "Call_plot_histogram d \<in> set (fst (cell11 e))"
  shows "job_simulator e = Inr d"
  using assms by (auto simp: cell11_run split: sum.splits)

lemma cell13_plot:
  assumes "Call_plot_histogram d \<in> set (fst (cell13 e))"
  shows "\<exists>answer. job_device e = Inr answer \<and> d = filteredAnswer threshold answer"
  using assms by (auto simp: cell13_run split: sum.splits)





lemma backend_calls_kind:
  "\<forall>c\<in>set (fst (cell11 e) @ fst (cell13 e)). \<not> is_randint c \<and> \<not> is_gate c"
  by (auto simp: cell11_run cell13_run split: sum.splits)

lemma backend_kind:
  assumes "C = [] \<or> C = fst (cell11 e) \<or> C = fst (cell11 e) @ fst (cell13 e)"
  shows "\<forall>c\<in>set C. \<not> is_randint c \<and> \<not> is_gate c"
  using assms backend_calls_kind [of e] by auto

lemma backend_plot:
  assumes "C = [] \<or> C = fst (cell11 e) \<or> C = fst (cell11 e) @ fst (cell13 e)"
    and "C = us @ Call_plot_histogram d # post"
  shows "\<exists>us' backend sh timeout nm d0.
           us = us' @ [Call_execute backend sh timeout, Call_get_counts nm (Some d0)]"
  using assms
  by (auto simp: cell11_run cell13_run Cons_eq_append_conv append_eq_Cons_conv
        split: sum.splits)

lemma notebook_run:
  "notebook n e =
     (if version_lt (version_info e) (3, 5)
      then ([], Inl (Exception ''Please use Python version 3.5 or greater.''))
      else case snd (cell9 n e) of
             Inl err \<Rightarrow> (fst (cell9 n e), Inl err)
           | Inr u \<Rightarrow>
               (case snd (cell11 e) of
                  Inl err \<Rightarrow> (fst (cell9 n e) @ fst (cell11 e), Inl err)
                | Inr u \<Rightarrow> (fst (cell9 n e) @ fst (cell11 e) @ fst (cell13 e), snd (cell13 e))))"
  by (simp add: notebook_def cell5_def run_then_def run_bind_def raise_def ret_def
        split: sum.splits)

lemma notebook_backend:
  "\<exists>C. (C = [] \<or> C = fst (cell11 e) \<or> C = fst (cell11 e) @ fst (cell13 e))
     \<and> (C \<noteq> [] \<longrightarrow> snd (cell9 n e) = Inr ())
     \<and> (fst (notebook n e) = fst (cell9 n e) @ C \<or> fst (notebook n e) = [] \<and> C = [])"
  unfolding notebook_run
  by (cases "snd (cell9 n e)"; cases "snd (cell11 e)") auto

lemma notebook_plots:
  assumes "Call_plot_histogram d \<in> set (fst (notebook n e))"
  shows "Call_plot_histogram d \<in> set (fst (cell11 e)) \<or> Call_plot_histogram d \<in> set (fst (cell13 e))"
proof -
  from notebook_backend [of e n] obtain C where
    C: "C = [] \<or> C = fst (cell11 e) \<or> C = fst (cell11 e) @ fst (cell13 e)"
    and cs: "fst (notebook n e) = fst (cell9 n e) @ C \<or> fst (notebook n e) = [] \<and> C = []"
    by blast
  have "Call_plot_histogram d \<notin> set (fst (cell9 n e))"
    using cell9_no_plot [of n e] by fastforce
  with assms cs have "Call_plot_histogram d \<in> set C" by auto
  with C show ?thesis by auto
qed

lemma notebook_example_balanced:
  "notebook 15 example_balanced =
     (fst (cell9 15 example_balanced)
      @ [Call_execute ''ibmqx_hpc_qasm_simulator'' 1000 None,
         Call_get_counts ''DeutschJosza'' (Some [(''101010101010101'', 1000)]),
         Call_plot_histogram [(''101010101010101'', 1000)],
         Call_execute ''ibmqx5'' 1000 (Some 480),
         Call_get_counts ''DeutschJosza''
           (Some [(''101010101010101'', 900), (''101010101010100'', 80),
                  (''000000000000000'', 20)]),
         Call_plot_histogram
           [(''101010101010101'', 900), (''101010101010100'', 80), (''other_bitstring'', 20)],
         Call_print (Print_counts
           [(''101010101010101'', 900), (''101010101010100'', 80), (''other_bitstring'', 20)])],
      Inr ())"
proof -
  have v: "\<not> version_lt (version_info example_balanced) (3, 5)"
    by (simp add: example_balanced_def version_lt_def)
  have c11: "cell11 example_balanced =
     ([Call_execute ''ibmqx_hpc_qasm_simulator'' 1000 None,
       Call_get_counts ''DeutschJosza'' (Some [(''101010101010101'', 1000)]),
       Call_plot_histogram [(''101010101010101'', 1000)]], Inr ())"
    by (simp add: cell11_run example_balanced_def shots_def)
  have c13: "cell13 example_balanced =
     ([Call_execute ''ibmqx5'' 1000 (Some 480),
       Call_get_counts ''DeutschJosza''
           (Some [(''101010101010101'', 900), (''101010101010100'', 80),
                  (''000000000000000'', 20)]),
       Call_plot_histogram
           [(''101010101010101'', 900), (''101010101010100'', 80), (''other_bitstring'', 20)],
       Call_print (Print_counts
           [(''101010101010101'', 900), (''101010101010100'', 80), (''other_bitstring'', 20)])],
      Inr ())"
    by (simp add: cell13_run example_balanced_def shots_def filtered_example)
  show ?thesis
    unfolding notebook_run c11 c13
    using v by (simp add: cell9_returns_example_balanced)
qed

lemma notebook_example_constant:
  "notebook 15 example_constant =
     (fst (cell9 15 example_constant)
      @ [Call_execute ''ibmqx_hpc_qasm_simulator'' 1000 None,
         Call_get_counts ''DeutschJosza'' (Some [(''000000000000000'', 1000)]),
         Call_plot_histogram [(''000000000000000'', 1000)],
         Call_execute ''ibmqx5'' 1000 (Some 480),
         Call_get_counts ''DeutschJosza'' None],
      Inl (QISKitError ''QISkit Time Out''))"
proof -
  have v: "\<not> version_lt (version_info example_constant) (3, 5)"
    by (simp add: example_constant_def version_lt_def)
  have c11: "cell11 example_constant =
     ([Call_execute ''ibmqx_hpc_qasm_simulator'' 1000 None,
       Call_get_counts ''DeutschJosza'' (Some [(''000000000000000'', 1000)]),
       Call_plot_histogram [(''000000000000000'', 1000)]], Inr ())"
    by (simp add: cell11_run example_constant_def shots_def)
  have c13: "cell13 example_constant =
     ([Call_execute ''ibmqx5'' 1000 (Some 480), Call_get_counts ''DeutschJosza'' None],
      Inl (QISKitError ''QISkit Time Out''))"
    by (simp add: cell13_run example_constant_def shots_def)
  show ?thesis
    unfolding notebook_run c11 c13
    using v by (simp add: cell9_returns_example_constant)
qed


text \<open>
  C6, as the claim states it, fails: the dictionary plotted for the device has the key
  \<open>other_bitstring\<close>, which is not a key of the backend's counts.
\<close>

theorem plotted_key_not_observed:
  "job_device example_balanced =
     Inr [(''101010101010101'', 900), (''101010101010100'', 80), (''000000000000000'', 20)]
   \<and> Call_plot_histogram
       [(''101010101010101'', 900), (''101010101010100'', 80), (''other_bitstring'', 20)]
       \<in> set (fst (notebook 15 example_balanced))
   \<and> ''other_bitstring'' \<notin> fst ` set [(''101010101010101'', 900 :: int),
         (''101010101010100'', 80), (''000000000000000'', 20)]"
proof -
  have "job_device example_balanced =
     Inr [(''101010101010101'', 900), (''101010101010100'', 80), (''000000000000000'', 20)]"
    by (simp add: example_balanced_def)
  moreover have "Call_plot_histogram
       [(''101010101010101'', 900), (''101010101010100'', 80), (''other_bitstring'', 20)]
       \<in> set (fst (notebook 15 example_balanced))"
    unfolding notebook_example_balanced by simp
  moreover have "''other_bitstring'' \<notin> fst ` set [(''101010101010101'', 900 :: int),
         (''101010101010100'', 80), (''000000000000000'', 20)]"
    by simp
  ultimately show ?thesis by (intro conjI)
qed

text \<open>
  C6, amended. Every dictionary handed to \<open>plot_histogram\<close> in a run is either the counts
  the simulator job returned, unchanged, or the filtered counts of the device job; the
  latter always has the extra key \<open>other_bitstring\<close>, and each of its other items is an
  item of the device's counts, with a count at or above the threshold.
\<close>

theorem plotted_dictionaries:
  "\<forall>d. Call_plot_histogram d \<in> set (fst (notebook n e)) \<longrightarrow>
      job_simulator e = Inr d
      \<or> (\<exists>answer. job_device e = Inr answer \<and> d = filteredAnswer threshold answer
            \<and> ''other_bitstring'' \<in> fst ` set d
            \<and> (\<forall>k v. (k, v) \<in> set d \<and> k \<noteq> ''other_bitstring'' \<longrightarrow>
                   (k, v) \<in> set answer \<and> threshold \<le> v))"
proof (intro allI impI)
  fix d
  assume "Call_plot_histogram d \<in> set (fst (notebook n e))"
  then consider "Call_plot_histogram d \<in> set (fst (cell11 e))"
    | "Call_plot_histogram d \<in> set (fst (cell13 e))"
    using notebook_plots by blast
  then show "job_simulator e = Inr d
      \<or> (\<exists>answer. job_device e = Inr answer \<and> d = filteredAnswer threshold answer
            \<and> ''other_bitstring'' \<in> fst ` set d
            \<and> (\<forall>k v. (k, v) \<in> set d \<and> k \<noteq> ''other_bitstring'' \<longrightarrow>
                   (k, v) \<in> set answer \<and> threshold \<le> v))"
  proof cases
    case 1
    then show ?thesis by (simp add: cell11_plot)
  next
    case 2
    from cell13_plot [OF 2] obtain answer where
      a: "job_device e = Inr answer" "d = filteredAnswer threshold answer" by blast
    have "''other_bitstring'' \<in> fst ` set d"
      unfolding a(2) by (rule filteredAnswer_keys(1))
    moreover have "\<forall>k v. (k, v) \<in> set d \<and> k \<noteq> ''other_bitstring'' \<longrightarrow>
                   (k, v) \<in> set answer \<and> threshold \<le> v"
      unfolding a(2) using filteredAnswer_keys(2) by blast
    ultimately show ?thesis using a by blast
  qed
qed

theorem plotted_dictionaries_witness:
  "Call_plot_histogram [(''101010101010101'', 1000)] \<in> set (fst (notebook 15 example_balanced))
   \<and> job_simulator example_balanced = Inr [(''101010101010101'', 1000)]"
proof -
  have p: "Call_plot_histogram [(''101010101010101'', 1000)]
             \<in> set (fst (notebook 15 example_balanced))"
    unfolding notebook_example_balanced by simp
  have "''other_bitstring'' \<notin> fst ` set [(''101010101010101'', 1000 :: int)]"
    by simp
  with plotted_dictionaries [of 15 example_balanced, THEN spec, THEN mp, OF p]
  have "job_simulator example_balanced = Inr [(''101010101010101'', 1000)]"
    by blast
  with p show ?thesis by (intro conjI)
qed

section \<open>The libraries\<close>

lemma library_cut_cases:
  "library_cut lib made cs outcome = (made @ cs, outcome)
   \<and> (\<forall>pre c post. cs = pre @ c # post \<longrightarrow> lib (made @ pre) c = None)
   \<or> (\<exists>pre c post err. cs = pre @ c # post \<and> lib (made @ pre) c = Some err
        \<and> (\<forall>p q r. pre = p @ q # r \<longrightarrow> lib (made @ p) q = None)
        \<and> library_cut lib made cs outcome = (made @ pre @ [c], Inl err))"
proof (induction cs arbitrary: made)
  case Nil
  then show ?case by simp
next
  case (Cons x cs)
  show ?case
  proof (cases "lib made x")
    case (Some err)
    then have "x # cs = [] @ x # cs \<and> lib (made @ []) x = Some err
        \<and> (\<forall>p q r. [] = p @ q # r \<longrightarrow> lib (made @ p) q = None)
        \<and> library_cut lib made (x # cs) outcome = (made @ [] @ [x], Inl err)"
      by simp
    then show ?thesis by (intro disjI2 exI)
  next
    case None
    from Cons.IH [of "made @ [x]"] show ?thesis
    proof (elim disjE conjE exE)
      assume a: "library_cut lib (made @ [x]) cs outcome = ((made @ [x]) @ cs, outcome)"
        and b: "\<forall>pre c post. cs = pre @ c # post \<longrightarrow> lib ((made @ [x]) @ pre) c = None"
      have "\<forall>pre c post. x # cs = pre @ c # post \<longrightarrow> lib (made @ pre) c = None"
      proof (intro allI impI)
        fix pre c post
        assume "x # cs = pre @ c # post"
        then show "lib (made @ pre) c = None"
          using None b by (cases pre) auto
      qed
      with a None show ?thesis by simp
    next
      fix pre c post err
      assume a: "cs = pre @ c # post" "lib ((made @ [x]) @ pre) c = Some err"
        "\<forall>p q r. pre = p @ q # r \<longrightarrow> lib ((made @ [x]) @ p) q = None"
        "library_cut lib (made @ [x]) cs outcome = ((made @ [x]) @ pre @ [c], Inl err)"
      have "\<forall>p q r. x # pre = p @ q # r \<longrightarrow> lib (made @ p) q = None"
      proof (intro allI impI)
        fix p q r
        assume "x # pre = p @ q # r"
        then show "lib (made @ p) q = None"
          using None a(3) by (cases p) auto
      qed
      with a None
      have "x # cs = (x # pre) @ c # post \<and> lib (made @ (x # pre)) c = Some err
        \<and> (\<forall>p q r. x # pre = p @ q # r \<longrightarrow> lib (made @ p) q = None)
        \<and> library_cut lib made (x # cs) outcome = (made @ (x # pre) @ [c], Inl err)"
        by simp
      then show ?thesis by (intro disjI2 exI)
    qed
  qed
qed

lemma with_library_cases:
  "with_library lib r = r
   \<and> (\<forall>pre c post. fst r = pre @ c # post \<longrightarrow> lib pre c = None)
   \<or> (\<exists>pre c post err. fst r = pre @ c # post \<and> lib pre c = Some err
        \<and> (\<forall>p q r. pre = p @ q # r \<longrightarrow> lib p q = None)
        \<and> with_library lib r = (pre @ [c], Inl err))"
  using library_cut_cases [of lib "[]" "fst r" "snd r"]
  by (simp add: with_library_def)

lemma with_library_prefix: "\<exists>rest. fst r = fst (with_library lib r) @ rest"
  using with_library_cases [of lib r]
proof (elim disjE conjE exE)
  assume "with_library lib r = r"
  then have "fst r = fst (with_library lib r) @ []" by simp
  then show ?thesis by (intro exI)
next
  fix pre c post err
  assume "fst r = pre @ c # post" and "with_library lib r = (pre @ [c], Inl err)"
  then have "fst r = fst (with_library lib r) @ post" by simp
  then show ?thesis by (intro exI)
qed

lemma with_library_returns:
  assumes "snd (with_library lib r) = Inr ()"
  shows "with_library lib r = r"
  using with_library_cases [of lib r]
proof (elim disjE conjE exE)
  assume "with_library lib r = r"
  then show ?thesis .
next
  fix pre c post err
  assume "with_library lib r = (pre @ [c], Inl err)"
  with assms show ?thesis by simp
qed

lemma with_library_returns_all: "with_library library_returns r = r"
  using with_library_cases [of library_returns r]
proof (elim disjE conjE exE)
  assume "with_library library_returns r = r"
  then show ?thesis .
next
  fix pre c post err
  assume "library_returns pre c = Some err"
  then show ?thesis by (simp add: library_returns_def)
qed

lemma run_notebook_returns_all: "run_notebook library_returns n e = notebook n e"
  by (simp add: run_notebook_def with_library_returns_all)



section \<open>The order of the steps\<close>

lemma select_parameters_calls:
  assumes "snd (select_parameters n e) = Inr (oracleType, oracleValue, a)"
  shows "fst (select_parameters n e) =
           Call_randint 0 2 # Call_randint 0 2 #
           (case a of None \<Rightarrow> [Call_print (Print_constant oracleValue)]
            | Some av \<Rightarrow> [Call_print Print_balanced, Call_randint 1 (2 ^ n)])"
  using assms unfolding select_parameters_run by (auto split: if_splits)

lemma select_parameters_unbound:
  assumes "snd (select_parameters n e) = Inr (oracleType, oracleValue, a)"
  shows "(a = None) = (oracleType = 0)"
  using assms unfolding select_parameters_run by (auto split: if_splits)

lemma cell9_calls:
  assumes "snd (select_parameters n e) = Inr (oracleType, oracleValue, a)"
  shows "fst (cell9 n e) =
      [Call_QuantumProgram, Call_set_api, Call_randint 0 2, Call_randint 0 2]
      @ (case a of None \<Rightarrow> [Call_print (Print_constant oracleValue)]
         | Some av \<Rightarrow> [Call_print Print_balanced, Call_randint 1 (2 ^ n)])
      @ [Call_create_quantum_register ''qr'' (n + 1), Call_create_classical_register ''cr'' n,
         Call_create_circuit ''DeutschJosza'']
      @ map Call_gate
         (map Gate_h [0..<n] @ [Gate_x n, Gate_h n, Gate_barrier]
          @ (case a of None \<Rightarrow> [if oracleValue = 1 then Gate_x n else Gate_iden n]
             | Some av \<Rightarrow> map (\<lambda>i. Gate_cx i n) (filter (bit av) [0..<n]))
          @ [Gate_barrier] @ map Gate_h [0..<n] @ map (\<lambda>i. Gate_measure i i) [0..<n])"
proof -
  note b = select_parameters_bound [OF assms]
  note o = oracle_section_gates [OF b, of n oracleValue]
  note u = select_parameters_unbound [OF assms]
  show ?thesis
    unfolding cell9_run [OF assms] select_parameters_calls [OF assms]
      construct_circuit_calls [OF o(1)] o(2)
    using u by (cases a) (simp_all add: comp_def del: upt_Suc)
qed

lemma backend_plot_counts:
  assumes "C = [] \<or> C = fst (cell11 e) \<or> C = fst (cell11 e) @ fst (cell13 e)"
    and "C = us @ Call_plot_histogram d # post"
  shows "\<exists>us' backend sh timeout nm d0.
           us = us' @ [Call_execute backend sh timeout, Call_get_counts nm (Some d0)]
           \<and> (job_simulator e = Inr d0 \<and> d = d0
              \<or> job_device e = Inr d0 \<and> d = filteredAnswer threshold d0)"
  using assms
  by (auto simp: cell11_run cell13_run Cons_eq_append_conv append_eq_Cons_conv
        split: sum.splits)

lemma notebook_gate:
  assumes cs: "fst (notebook n e) = pre @ c # post" and c: "is_gate c"
  shows "\<exists>oracleType oracleValue a.
           snd (select_parameters n e) = Inr (oracleType, oracleValue, a)
           \<and> filter is_randint pre =
               Call_randint 0 2 # Call_randint 0 2 #
               (case a of None \<Rightarrow> [] | Some av \<Rightarrow> [Call_randint 1 (2 ^ n)])"
    and "\<not> list_ex is_randint post"
proof -
  from notebook_backend [of e n] obtain C where
    C: "C = [] \<or> C = fst (cell11 e) \<or> C = fst (cell11 e) @ fst (cell13 e)"
    and ok: "C \<noteq> [] \<longrightarrow> snd (cell9 n e) = Inr ()"
    and nb: "fst (notebook n e) = fst (cell9 n e) @ C \<or> fst (notebook n e) = [] \<and> C = []"
    by blast
  note Ck = backend_kind [OF C]
  from cs nb have base: "fst (cell9 n e) @ C = pre @ c # post" by auto
  let ?P = "Call_QuantumProgram # Call_set_api # fst (select_parameters n e)"
  have P: "\<forall>c\<in>set ?P. \<not> is_gate c"
    using select_calls_kind [of n e] by simp
  have sel: "\<exists>p. snd (select_parameters n e) = Inr p"
  proof (cases "snd (select_parameters n e)")
    case (Inl err)
    then have "snd (cell9 n e) \<noteq> Inr ()" by (simp add: cell9_stops)
    with ok have "C = []" by blast
    with base Inl have "?P = pre @ c # post" by (simp add: cell9_stops)
    then have "c \<in> set ?P" by (metis in_set_conv_decomp)
    with P c show ?thesis by blast
  next
    case (Inr p)
    then show ?thesis by blast
  qed
  then obtain oracleType oracleValue a
    where s: "snd (select_parameters n e) = Inr (oracleType, oracleValue, a)"
    by (metis prod_cases3)
  let ?G = "fst (construct_circuit n oracleType oracleValue a)"
  have G: "\<forall>c\<in>set (?G @ C). \<not> is_randint c"
    using construct_calls_kind [OF select_parameters_bound [OF s], of n oracleValue] Ck
    by auto
  from base have eq: "?P @ (?G @ C) = pre @ c # post"
    by (simp add: cell9_run [OF s])
  from split_in_second [OF P eq c] obtain us
    where us: "pre = ?P @ us" "?G @ C = us @ c # post" by blast
  from arg_cong [OF us(2), of set] have "set (?G @ C) = set (us @ c # post)" .
  then have "set us \<subseteq> set (?G @ C)" and "set post \<subseteq> set (?G @ C)"
    by auto
  with G have "\<forall>c\<in>set us. \<not> is_randint c" and post: "\<forall>c\<in>set post. \<not> is_randint c"
    by blast+
  then have "filter is_randint us = []"
    by (simp add: filter_empty_conv)
  then have "filter is_randint pre = filter is_randint ?P"
    by (simp add: us(1))
  also have "\<dots> = Call_randint 0 2 # Call_randint 0 2 #
               (case a of None \<Rightarrow> [] | Some av \<Rightarrow> [Call_randint 1 (2 ^ n)])"
    unfolding select_parameters_calls [OF s] by (cases a) simp_all
  finally have "snd (select_parameters n e) = Inr (oracleType, oracleValue, a)
           \<and> filter is_randint pre =
               Call_randint 0 2 # Call_randint 0 2 #
               (case a of None \<Rightarrow> [] | Some av \<Rightarrow> [Call_randint 1 (2 ^ n)])"
    using s by (intro conjI)
  then show "\<exists>oracleType oracleValue a.
           snd (select_parameters n e) = Inr (oracleType, oracleValue, a)
           \<and> filter is_randint pre =
               Call_randint 0 2 # Call_randint 0 2 #
               (case a of None \<Rightarrow> [] | Some av \<Rightarrow> [Call_randint 1 (2 ^ n)])"
    by (intro exI)
  from post show "\<not> list_ex is_randint post"
    by (simp add: list_ex_iff)
qed

lemma notebook_execute:
  assumes cs: "fst (notebook n e) = pre @ c # post" and c: "is_execute c"
  shows "\<exists>oracleType oracleValue a.
           snd (select_parameters n e) = Inr (oracleType, oracleValue, a)
           \<and> gates_of pre =
               map Gate_h [0..<n] @ [Gate_x n, Gate_h n, Gate_barrier]
               @ (case a of None \<Rightarrow> [if oracleValue = 1 then Gate_x n else Gate_iden n]
                  | Some av \<Rightarrow> map (\<lambda>i. Gate_cx i n) (filter (bit av) [0..<n]))
               @ [Gate_barrier] @ map Gate_h [0..<n] @ map (\<lambda>i. Gate_measure i i) [0..<n]"
    and "\<not> list_ex is_gate post"
proof -
  from notebook_backend [of e n] obtain C where
    C: "C = [] \<or> C = fst (cell11 e) \<or> C = fst (cell11 e) @ fst (cell13 e)"
    and ok: "C \<noteq> [] \<longrightarrow> snd (cell9 n e) = Inr ()"
    and nb: "fst (notebook n e) = fst (cell9 n e) @ C \<or> fst (notebook n e) = [] \<and> C = []"
    by blast
  note Ck = backend_kind [OF C]
  from cs nb have eq: "fst (cell9 n e) @ C = pre @ c # post" by auto
  have "\<forall>c\<in>set (fst (cell9 n e)). \<not> is_execute c"
    using cell9_no_plot [of n e] by blast
  from split_in_second [OF this eq c] obtain us
    where us: "pre = fst (cell9 n e) @ us" "C = us @ c # post" by blast
  from arg_cong [OF us(2), of set] have "set C = set (us @ c # post)" .
  then have "set us \<subseteq> set C" and "set post \<subseteq> set C"
    by auto
  with Ck have "\<forall>c\<in>set us. \<not> is_gate c" and "\<forall>c\<in>set post. \<not> is_gate c"
    by blast+
  then have g: "gates_of us = []" and "\<not> list_ex is_gate post"
    by (simp_all add: gates_of_none list_ex_iff)
  then show "\<not> list_ex is_gate post" by simp
  from us(2) ok have "snd (cell9 n e) = Inr ()" by simp
  then obtain p where "snd (select_parameters n e) = Inr p"
    unfolding cell9_returns_iff by (elim exE)
  then obtain oracleType oracleValue a
    where s: "snd (select_parameters n e) = Inr (oracleType, oracleValue, a)"
    by (metis prod_cases3)
  have "gates_of pre = gates_of (fst (cell9 n e))"
    by (simp add: us(1) gates_of_append g)
  with s have "snd (select_parameters n e) = Inr (oracleType, oracleValue, a)
           \<and> gates_of pre =
               map Gate_h [0..<n] @ [Gate_x n, Gate_h n, Gate_barrier]
               @ (case a of None \<Rightarrow> [if oracleValue = 1 then Gate_x n else Gate_iden n]
                  | Some av \<Rightarrow> map (\<lambda>i. Gate_cx i n) (filter (bit av) [0..<n]))
               @ [Gate_barrier] @ map Gate_h [0..<n] @ map (\<lambda>i. Gate_measure i i) [0..<n]"
    by (simp only: cell9_gates [OF s] simp_thms)
  then show "\<exists>oracleType oracleValue a.
           snd (select_parameters n e) = Inr (oracleType, oracleValue, a)
           \<and> gates_of pre =
               map Gate_h [0..<n] @ [Gate_x n, Gate_h n, Gate_barrier]
               @ (case a of None \<Rightarrow> [if oracleValue = 1 then Gate_x n else Gate_iden n]
                  | Some av \<Rightarrow> map (\<lambda>i. Gate_cx i n) (filter (bit av) [0..<n]))
               @ [Gate_barrier] @ map Gate_h [0..<n] @ map (\<lambda>i. Gate_measure i i) [0..<n]"
    by (intro exI)
qed

lemma notebook_plot:
  assumes cs: "fst (notebook n e) = pre @ Call_plot_histogram d # post"
  shows "\<exists>pre' backend sh timeout nm d0.
           pre = pre' @ [Call_execute backend sh timeout, Call_get_counts nm (Some d0)]
           \<and> (job_simulator e = Inr d0 \<and> d = d0
              \<or> job_device e = Inr d0 \<and> d = filteredAnswer threshold d0)"
proof -
  from notebook_backend [of e n] obtain C where
    C: "C = [] \<or> C = fst (cell11 e) \<or> C = fst (cell11 e) @ fst (cell13 e)"
    and nb: "fst (notebook n e) = fst (cell9 n e) @ C \<or> fst (notebook n e) = [] \<and> C = []"
    by blast
  from cs nb have eq: "fst (cell9 n e) @ C = pre @ Call_plot_histogram d # post" by auto
  have "\<forall>c\<in>set (fst (cell9 n e)). \<not> is_plot c"
    using cell9_no_plot [of n e] by blast
  from split_in_second [OF this eq] obtain us
    where us: "pre = fst (cell9 n e) @ us" "C = us @ Call_plot_histogram d # post"
    by auto
  from backend_plot_counts [OF C us(2)] obtain us' backend sh timeout nm d0
    where "us = us' @ [Call_execute backend sh timeout, Call_get_counts nm (Some d0)]"
      and "job_simulator e = Inr d0 \<and> d = d0
              \<or> job_device e = Inr d0 \<and> d = filteredAnswer threshold d0"
    by blast
  then have "pre = (fst (cell9 n e) @ us')
                  @ [Call_execute backend sh timeout, Call_get_counts nm (Some d0)]
           \<and> (job_simulator e = Inr d0 \<and> d = d0
              \<or> job_device e = Inr d0 \<and> d = filteredAnswer threshold d0)"
    by (simp add: us(1))
  then show ?thesis by (intro exI)
qed

lemma notebook_returns:
  assumes "snd (notebook n e) = Inr ()"
  shows "\<exists>oracleType oracleValue a d1 d2.
      snd (select_parameters n e) = Inr (oracleType, oracleValue, a)
      \<and> job_simulator e = Inr d1 \<and> job_device e = Inr d2
      \<and> fst (notebook n e) =
          [Call_QuantumProgram, Call_set_api, Call_randint 0 2, Call_randint 0 2]
          @ (case a of None \<Rightarrow> [Call_print (Print_constant oracleValue)]
             | Some av \<Rightarrow> [Call_print Print_balanced, Call_randint 1 (2 ^ n)])
          @ [Call_create_quantum_register ''qr'' (n + 1),
             Call_create_classical_register ''cr'' n, Call_create_circuit ''DeutschJosza'']
          @ map Call_gate
             (map Gate_h [0..<n] @ [Gate_x n, Gate_h n, Gate_barrier]
              @ (case a of None \<Rightarrow> [if oracleValue = 1 then Gate_x n else Gate_iden n]
                 | Some av \<Rightarrow> map (\<lambda>i. Gate_cx i n) (filter (bit av) [0..<n]))
              @ [Gate_barrier] @ map Gate_h [0..<n] @ map (\<lambda>i. Gate_measure i i) [0..<n])
          @ [Call_execute ''ibmqx_hpc_qasm_simulator'' shots None,
             Call_get_counts ''DeutschJosza'' (Some d1), Call_plot_histogram d1,
             Call_execute ''ibmqx5'' shots (Some 480),
             Call_get_counts ''DeutschJosza'' (Some d2),
             Call_plot_histogram (filteredAnswer threshold d2),
             Call_print (Print_counts (filteredAnswer threshold d2))]"
proof -
  from assms have v: "\<not> version_lt (version_info e) (3, 5)"
    by (auto simp: notebook_run)
  from assms v have c9: "snd (cell9 n e) = Inr ()"
    by (cases "snd (cell9 n e)") (simp_all add: notebook_run)
  from assms v c9 have c11: "snd (cell11 e) = Inr ()"
    by (cases "snd (cell11 e)") (simp_all add: notebook_run)
  from assms v c9 c11 have c13: "snd (cell13 e) = Inr ()"
    by (simp add: notebook_run)
  from v c9 c11 have nb: "fst (notebook n e) = fst (cell9 n e) @ fst (cell11 e) @ fst (cell13 e)"
    by (simp add: notebook_run)
  from c9 obtain p where "snd (select_parameters n e) = Inr p"
    unfolding cell9_returns_iff by (elim exE)
  then obtain oracleType oracleValue a
    where s: "snd (select_parameters n e) = Inr (oracleType, oracleValue, a)"
    by (metis prod_cases3)
  from c11 obtain d1 where d1: "job_simulator e = Inr d1"
    by (cases "job_simulator e") (simp_all add: cell11_run)
  from c13 obtain d2 where d2: "job_device e = Inr d2"
    by (cases "job_device e") (simp_all add: cell13_run)
  have "fst (cell11 e) = [Call_execute ''ibmqx_hpc_qasm_simulator'' shots None,
             Call_get_counts ''DeutschJosza'' (Some d1), Call_plot_histogram d1]"
    by (simp add: cell11_run d1)
  moreover have "fst (cell13 e) = [Call_execute ''ibmqx5'' shots (Some 480),
             Call_get_counts ''DeutschJosza'' (Some d2),
             Call_plot_histogram (filteredAnswer threshold d2),
             Call_print (Print_counts (filteredAnswer threshold d2))]"
    by (simp add: cell13_run d2)
  ultimately have "snd (select_parameters n e) = Inr (oracleType, oracleValue, a)
      \<and> job_simulator e = Inr d1 \<and> job_device e = Inr d2
      \<and> fst (notebook n e) =
          [Call_QuantumProgram, Call_set_api, Call_randint 0 2, Call_randint 0 2]
          @ (case a of None \<Rightarrow> [Call_print (Print_constant oracleValue)]
             | Some av \<Rightarrow> [Call_print Print_balanced, Call_randint 1 (2 ^ n)])
          @ [Call_create_quantum_register ''qr'' (n + 1),
             Call_create_classical_register ''cr'' n, Call_create_circuit ''DeutschJosza'']
          @ map Call_gate
             (map Gate_h [0..<n] @ [Gate_x n, Gate_h n, Gate_barrier]
              @ (case a of None \<Rightarrow> [if oracleValue = 1 then Gate_x n else Gate_iden n]
                 | Some av \<Rightarrow> map (\<lambda>i. Gate_cx i n) (filter (bit av) [0..<n]))
              @ [Gate_barrier] @ map Gate_h [0..<n] @ map (\<lambda>i. Gate_measure i i) [0..<n])
          @ [Call_execute ''ibmqx_hpc_qasm_simulator'' shots None,
             Call_get_counts ''DeutschJosza'' (Some d1), Call_plot_histogram d1,
             Call_execute ''ibmqx5'' shots (Some 480),
             Call_get_counts ''DeutschJosza'' (Some d2),
             Call_plot_histogram (filteredAnswer threshold d2),
             Call_print (Print_counts (filteredAnswer threshold d2))]"
    using s d1 d2 by (simp add: nb cell9_calls [OF s] del: upt_Suc)
  then show ?thesis by (intro exI)
qed

text \<open>
  C7. Whatever the libraries do, a run that returns has made exactly these calls, in
  this order: the draws of \<open>oracleType\<close> and \<open>oracleValue\<close>, the print, the draw of \<open>a\<close>
  when the oracle is balanced, the two registers and the circuit, the gates of the
  circuit, then \<open>execute\<close>, \<open>get_counts\<close> and \<open>plot_histogram\<close> for the simulator, then
  \<open>execute\<close>, \<open>get_counts\<close>, \<open>plot_histogram\<close> of the filtered counts and the print for
  the device. In every run, also one that an error ends: when a gate is appended the
  parameters have been drawn (two draws, and the draw of \<open>a\<close> for a balanced oracle) and
  none is drawn later; when a backend is invoked all the gates of the circuit have been
  appended and none is appended later; and a \<open>plot_histogram\<close> call comes right after
  an \<open>execute\<close> call and the \<open>get_counts\<close> call that returned the counts it plots,
  unchanged for the simulator and filtered for the device.
\<close>

theorem steps_in_order:
  "(snd (run_notebook lib n e) = Inr () \<longrightarrow>
      (\<exists>oracleType oracleValue a d1 d2.
         snd (select_parameters n e) = Inr (oracleType, oracleValue, a)
         \<and> job_simulator e = Inr d1 \<and> job_device e = Inr d2
         \<and> fst (run_notebook lib n e) =
             [Call_QuantumProgram, Call_set_api, Call_randint 0 2, Call_randint 0 2]
             @ (case a of None \<Rightarrow> [Call_print (Print_constant oracleValue)]
                | Some av \<Rightarrow> [Call_print Print_balanced, Call_randint 1 (2 ^ n)])
             @ [Call_create_quantum_register ''qr'' (n + 1),
                Call_create_classical_register ''cr'' n, Call_create_circuit ''DeutschJosza'']
             @ map Call_gate
                (map Gate_h [0..<n] @ [Gate_x n, Gate_h n, Gate_barrier]
                 @ (case a of None \<Rightarrow> [if oracleValue = 1 then Gate_x n else Gate_iden n]
                    | Some av \<Rightarrow> map (\<lambda>i. Gate_cx i n) (filter (bit av) [0..<n]))
                 @ [Gate_barrier] @ map Gate_h [0..<n]
                 @ map (\<lambda>i. Gate_measure i i) [0..<n])
             @ [Call_execute ''ibmqx_hpc_qasm_simulator'' shots None,
                Call_get_counts ''DeutschJosza'' (Some d1), Call_plot_histogram d1,
                Call_execute ''ibmqx5'' shots (Some 480),
                Call_get_counts ''DeutschJosza'' (Some d2),
                Call_plot_histogram (filteredAnswer threshold d2),
                Call_print (Print_counts (filteredAnswer threshold d2))]))
   \<and> (\<forall>pre c post. fst (run_notebook lib n e) = pre @ c # post \<and> is_gate c \<longrightarrow>
        (\<exists>oracleType oracleValue a.
           snd (select_parameters n e) = Inr (oracleType, oracleValue, a)
           \<and> filter is_randint pre =
               Call_randint 0 2 # Call_randint 0 2 #
               (case a of None \<Rightarrow> [] | Some av \<Rightarrow> [Call_randint 1 (2 ^ n)]))
        \<and> \<not> list_ex is_randint post)
   \<and> (\<forall>pre c post. fst (run_notebook lib n e) = pre @ c # post \<and> is_execute c \<longrightarrow>
        (\<exists>oracleType oracleValue a.
           snd (select_parameters n e) = Inr (oracleType, oracleValue, a)
           \<and> gates_of pre =
               map Gate_h [0..<n] @ [Gate_x n, Gate_h n, Gate_barrier]
               @ (case a of None \<Rightarrow> [if oracleValue = 1 then Gate_x n else Gate_iden n]
                  | Some av \<Rightarrow> map (\<lambda>i. Gate_cx i n) (filter (bit av) [0..<n]))
               @ [Gate_barrier] @ map Gate_h [0..<n] @ map (\<lambda>i. Gate_measure i i) [0..<n])
        \<and> \<not> list_ex is_gate post)
   \<and> (\<forall>pre d post. fst (run_notebook lib n e) = pre @ Call_plot_histogram d # post \<longrightarrow>
        (\<exists>pre' backend sh timeout nm d0.
           pre = pre' @ [Call_execute backend sh timeout, Call_get_counts nm (Some d0)]
           \<and> (job_simulator e = Inr d0 \<and> d = d0
              \<or> job_device e = Inr d0 \<and> d = filteredAnswer threshold d0)))"
proof (intro conjI allI impI)
  assume "snd (run_notebook lib n e) = Inr ()"
  then have r: "snd (with_library lib (notebook n e)) = Inr ()"
    by (simp add: run_notebook_def)
  from with_library_returns [OF r] have same: "run_notebook lib n e = notebook n e"
    by (simp add: run_notebook_def)
  with r have "snd (notebook n e) = Inr ()"
    by (simp add: run_notebook_def)
  from notebook_returns [OF this]
  show "\<exists>oracleType oracleValue a d1 d2.
         snd (select_parameters n e) = Inr (oracleType, oracleValue, a)
         \<and> job_simulator e = Inr d1 \<and> job_device e = Inr d2
         \<and> fst (run_notebook lib n e) =
             [Call_QuantumProgram, Call_set_api, Call_randint 0 2, Call_randint 0 2]
             @ (case a of None \<Rightarrow> [Call_print (Print_constant oracleValue)]
                | Some av \<Rightarrow> [Call_print Print_balanced, Call_randint 1 (2 ^ n)])
             @ [Call_create_quantum_register ''qr'' (n + 1),
                Call_create_classical_register ''cr'' n, Call_create_circuit ''DeutschJosza'']
             @ map Call_gate
                (map Gate_h [0..<n] @ [Gate_x n, Gate_h n, Gate_barrier]
                 @ (case a of None \<Rightarrow> [if oracleValue = 1 then Gate_x n else Gate_iden n]
                    | Some av \<Rightarrow> map (\<lambda>i. Gate_cx i n) (filter (bit av) [0..<n]))
                 @ [Gate_barrier] @ map Gate_h [0..<n]
                 @ map (\<lambda>i. Gate_measure i i) [0..<n])
             @ [Call_execute ''ibmqx_hpc_qasm_simulator'' shots None,
                Call_get_counts ''DeutschJosza'' (Some d1), Call_plot_histogram d1,
                Call_execute ''ibmqx5'' shots (Some 480),
                Call_get_counts ''DeutschJosza'' (Some d2),
                Call_plot_histogram (filteredAnswer threshold d2),
                Call_print (Print_counts (filteredAnswer threshold d2))]"
    unfolding same .
next
  fix pre c post
  assume h: "fst (run_notebook lib n e) = pre @ c # post \<and> is_gate c"
  from with_library_prefix [of "notebook n e" lib] obtain rest
    where "fst (notebook n e) = fst (run_notebook lib n e) @ rest"
    unfolding run_notebook_def by (elim exE)
  with h have cs: "fst (notebook n e) = pre @ c # (post @ rest)" by simp
  from h have c: "is_gate c" by simp
  show "\<exists>oracleType oracleValue a.
           snd (select_parameters n e) = Inr (oracleType, oracleValue, a)
           \<and> filter is_randint pre =
               Call_randint 0 2 # Call_randint 0 2 #
               (case a of None \<Rightarrow> [] | Some av \<Rightarrow> [Call_randint 1 (2 ^ n)])"
    by (rule notebook_gate(1) [OF cs c])
  from notebook_gate(2) [OF cs c] show "\<not> list_ex is_randint post"
    by (simp add: list_ex_iff)
next
  fix pre c post
  assume h: "fst (run_notebook lib n e) = pre @ c # post \<and> is_execute c"
  from with_library_prefix [of "notebook n e" lib] obtain rest
    where "fst (notebook n e) = fst (run_notebook lib n e) @ rest"
    unfolding run_notebook_def by (elim exE)
  with h have cs: "fst (notebook n e) = pre @ c # (post @ rest)" by simp
  from h have c: "is_execute c" by simp
  show "\<exists>oracleType oracleValue a.
           snd (select_parameters n e) = Inr (oracleType, oracleValue, a)
           \<and> gates_of pre =
               map Gate_h [0..<n] @ [Gate_x n, Gate_h n, Gate_barrier]
               @ (case a of None \<Rightarrow> [if oracleValue = 1 then Gate_x n else Gate_iden n]
                  | Some av \<Rightarrow> map (\<lambda>i. Gate_cx i n) (filter (bit av) [0..<n]))
               @ [Gate_barrier] @ map Gate_h [0..<n] @ map (\<lambda>i. Gate_measure i i) [0..<n]"
    by (rule notebook_execute(1) [OF cs c])
  from notebook_execute(2) [OF cs c] show "\<not> list_ex is_gate post"
    by (simp add: list_ex_iff)
next
  fix pre d post
  assume h: "fst (run_notebook lib n e) = pre @ Call_plot_histogram d # post"
  from with_library_prefix [of "notebook n e" lib] obtain rest
    where "fst (notebook n e) = fst (run_notebook lib n e) @ rest"
    unfolding run_notebook_def by (elim exE)
  with h have cs: "fst (notebook n e) = pre @ Call_plot_histogram d # (post @ rest)" by simp
  show "\<exists>pre' backend sh timeout nm d0.
           pre = pre' @ [Call_execute backend sh timeout, Call_get_counts nm (Some d0)]
           \<and> (job_simulator e = Inr d0 \<and> d = d0
              \<or> job_device e = Inr d0 \<and> d = filteredAnswer threshold d0)"
    by (rule notebook_plot [OF cs])
qed

theorem steps_in_order_witness:
  "snd (run_notebook library_returns 15 example_balanced) = Inr ()
   \<and> fst (run_notebook library_returns 15 example_balanced) =
       [Call_QuantumProgram, Call_set_api, Call_randint 0 2, Call_randint 0 2,
        Call_print Print_balanced, Call_randint 1 (2 ^ 15),
        Call_create_quantum_register ''qr'' 16, Call_create_classical_register ''cr'' 15,
        Call_create_circuit ''DeutschJosza'']
       @ map Call_gate
          (map Gate_h [0..<15] @ [Gate_x 15, Gate_h 15, Gate_barrier]
           @ map (\<lambda>i. Gate_cx i 15) [0, 2, 4, 6, 8, 10, 12, 14]
           @ [Gate_barrier] @ map Gate_h [0..<15] @ map (\<lambda>i. Gate_measure i i) [0..<15])
       @ [Call_execute ''ibmqx_hpc_qasm_simulator'' 1000 None,
          Call_get_counts ''DeutschJosza'' (Some [(''101010101010101'', 1000)]),
          Call_plot_histogram [(''101010101010101'', 1000)],
          Call_execute ''ibmqx5'' 1000 (Some 480),
          Call_get_counts ''DeutschJosza''
            (Some [(''101010101010101'', 900), (''101010101010100'', 80),
                   (''000000000000000'', 20)]),
          Call_plot_histogram
            [(''101010101010101'', 900), (''101010101010100'', 80), (''other_bitstring'', 20)],
          Call_print (Print_counts
            [(''101010101010101'', 900), (''101010101010100'', 80),
             (''other_bitstring'', 20)])]"
proof -
  have r: "snd (run_notebook library_returns 15 example_balanced) = Inr ()"
    by (simp add: run_notebook_returns_all notebook_example_balanced)
  from steps_in_order [of library_returns 15 example_balanced, THEN conjunct1, THEN mp, OF r]
  obtain oracleType oracleValue a d1 d2 where
    s: "snd (select_parameters 15 example_balanced) = Inr (oracleType, oracleValue, a)"
    and j: "job_simulator example_balanced = Inr d1" "job_device example_balanced = Inr d2"
    and cs: "fst (run_notebook library_returns 15 example_balanced) =
             [Call_QuantumProgram, Call_set_api, Call_randint 0 2, Call_randint 0 2]
             @ (case a of None \<Rightarrow> [Call_print (Print_constant oracleValue)]
                | Some av \<Rightarrow> [Call_print Print_balanced, Call_randint 1 (2 ^ 15)])
             @ [Call_create_quantum_register ''qr'' (15 + 1),
                Call_create_classical_register ''cr'' 15, Call_create_circuit ''DeutschJosza'']
             @ map Call_gate
                (map Gate_h [0..<15] @ [Gate_x 15, Gate_h 15, Gate_barrier]
                 @ (case a of None \<Rightarrow> [if oracleValue = 1 then Gate_x 15 else Gate_iden 15]
                    | Some av \<Rightarrow> map (\<lambda>i. Gate_cx i 15) (filter (bit av) [0..<15]))
                 @ [Gate_barrier] @ map Gate_h [0..<15]
                 @ map (\<lambda>i. Gate_measure i i) [0..<15])
             @ [Call_execute ''ibmqx_hpc_qasm_simulator'' shots None,
                Call_get_counts ''DeutschJosza'' (Some d1), Call_plot_histogram d1,
                Call_execute ''ibmqx5'' shots (Some 480),
                Call_get_counts ''DeutschJosza'' (Some d2),
                Call_plot_histogram (filteredAnswer threshold d2),
                Call_print (Print_counts (filteredAnswer threshold d2))]"
    by (elim exE conjE)
  from s have a: "a = Some 21845"
    by (simp add: select_example_balanced)
  from j have d: "d1 = [(''101010101010101'', 1000)]"
    "d2 = [(''101010101010101'', 900), (''101010101010100'', 80), (''000000000000000'', 20)]"
    by (simp_all add: example_balanced_def)
  have "fst (run_notebook library_returns 15 example_balanced) =
       [Call_QuantumProgram, Call_set_api, Call_randint 0 2, Call_randint 0 2,
        Call_print Print_balanced, Call_randint 1 (2 ^ 15),
        Call_create_quantum_register ''qr'' 16, Call_create_classical_register ''cr'' 15,
        Call_create_circuit ''DeutschJosza'']
       @ map Call_gate
          (map Gate_h [0..<15] @ [Gate_x 15, Gate_h 15, Gate_barrier]
           @ map (\<lambda>i. Gate_cx i 15) [0, 2, 4, 6, 8, 10, 12, 14]
           @ [Gate_barrier] @ map Gate_h [0..<15] @ map (\<lambda>i. Gate_measure i i) [0..<15])
       @ [Call_execute ''ibmqx_hpc_qasm_simulator'' 1000 None,
          Call_get_counts ''DeutschJosza'' (Some [(''101010101010101'', 1000)]),
          Call_plot_histogram [(''101010101010101'', 1000)],
          Call_execute ''ibmqx5'' 1000 (Some 480),
          Call_get_counts ''DeutschJosza''
            (Some [(''101010101010101'', 900), (''101010101010100'', 80),
                   (''000000000000000'', 20)]),
          Call_plot_histogram
            [(''101010101010101'', 900), (''101010101010100'', 80), (''other_bitstring'', 20)],
          Call_print (Print_counts
            [(''101010101010101'', 900), (''101010101010100'', 80),
             (''other_bitstring'', 20)])]"
    unfolding cs a d filtered_example bits_21845 shots_def option.case
    by simp
  with r show ?thesis by (intro conjI)
qed

section \<open>Errors\<close>













end
